theory Spec2Isabelle
  imports Main "HOL-Library.Word" "HOL-Library.Sublist"
begin

unbundle bit_operations_syntax

section \<open>JVMTI event dispatch (jvmtiExport.cpp): data model\<close>

text \<open>
  The five values of \<^verbatim>\<open>jvmtiPhase\<close>. The enumerators are declared in jvmti.h, which is
  not part of the sources at hand; the code compares them with \<^verbatim>\<open><\<close>, so every function
  that does so takes the numbering \<open>pv\<close> of the enumerators as a parameter.
\<close>

datatype jvmtiPhase =
    JVMTI_PHASE_ONLOAD
  | JVMTI_PHASE_PRIMORDIAL
  | JVMTI_PHASE_START
  | JVMTI_PHASE_LIVE
  | JVMTI_PHASE_DEAD

text \<open>The numbering of the JVMTI standard header, used where a concrete one is needed.\<close>

fun jvmti_h_phase_value :: "jvmtiPhase \<Rightarrow> int" where
  "jvmti_h_phase_value JVMTI_PHASE_ONLOAD = 1"
| "jvmti_h_phase_value JVMTI_PHASE_PRIMORDIAL = 2"
| "jvmti_h_phase_value JVMTI_PHASE_START = 6"
| "jvmti_h_phase_value JVMTI_PHASE_LIVE = 4"
| "jvmti_h_phase_value JVMTI_PHASE_DEAD = 8"

text \<open>The event kinds posted by the functions modelled below.\<close>

datatype jvmtiEvent =
    JVMTI_EVENT_CLASS_FILE_LOAD_HOOK
  | JVMTI_EVENT_CLASS_LOAD
  | JVMTI_EVENT_CLASS_PREPARE
  | EXT_EVENT_CLASS_UNLOAD
  | JVMTI_EVENT_THREAD_START
  | JVMTI_EVENT_THREAD_END
  | JVMTI_EVENT_VIRTUAL_THREAD_START
  | JVMTI_EVENT_VIRTUAL_THREAD_END
  | EXT_EVENT_VIRTUAL_THREAD_MOUNT
  | EXT_EVENT_VIRTUAL_THREAD_UNMOUNT
  | JVMTI_EVENT_COMPILED_METHOD_LOAD
  | JVMTI_EVENT_COMPILED_METHOD_UNLOAD
  | JVMTI_EVENT_DYNAMIC_CODE_GENERATED
  | JVMTI_EVENT_NATIVE_METHOD_BIND
  | JVMTI_EVENT_BREAKPOINT
  | JVMTI_EVENT_SINGLE_STEP
  | JVMTI_EVENT_EXCEPTION
  | JVMTI_EVENT_VM_OBJECT_ALLOC
  | JVMTI_EVENT_SAMPLED_OBJECT_ALLOC

text \<open>
  A \<^verbatim>\<open>JvmtiEnv\<close>, as far as the posting code reads it: its external identity
  (\<^verbatim>\<open>jvmti_external()\<close>), \<^verbatim>\<open>phase()\<close>, \<^verbatim>\<open>is_retransformable()\<close>, the two early flags,
  \<^verbatim>\<open>is_enabled(event)\<close>, and whether the callback table has a non-null entry for an event.
\<close>

record JvmtiEnv =
  env_id :: nat
  env_phase :: jvmtiPhase
  is_retransformable :: bool
  early_class_hook_env :: bool
  early_vmstart_env :: bool
  env_is_enabled :: "jvmtiEvent \<Rightarrow> bool"
  has_callback :: "jvmtiEvent \<Rightarrow> bool"

section \<open>Environment creation: \<^verbatim>\<open>JvmtiExport::get_jvmti_interface\<close>\<close>







text \<open>
  Modelled from the spec: \<^verbatim>\<open>JvmtiEnv::create_a_jvmti\<close> and the environment list it
  maintains are not part of the sources at hand. The spec's \<open>register\<close> "appends to the
  ordered list", and environments "form an append-only, insertion-ordered list".
\<close>

definition create_a_jvmti :: "JvmtiEnv \<Rightarrow> JvmtiEnv list \<Rightarrow> JvmtiEnv list" where
  "create_a_jvmti new_env envs = envs @ [new_env]"


section \<open>Threads, per-thread state and event collectors\<close>

text \<open>
  An object reference, as far as the posting code looks at it: its address and whether
  \<^verbatim>\<open>obj->klass() == vmClasses::Class_klass()\<close>. A null \<^verbatim>\<open>oop\<close> argument is \<open>None\<close>.
\<close>

record oopDesc =
  oop_address :: nat
  klass_is_Class_klass :: bool

record Method =
  jmethod_id :: nat
  code_base :: int
  jvmti_mount_transition :: bool

text \<open>The arguments an agent callback receives, by event.\<close>

datatype payload =
    No_arguments
  | Class_arguments nat
  | Name_arguments string
  | Thread_arguments
  | Method_arguments nat
  | Native_method_arguments bool nat
  | Location_arguments nat int
  | Compiled_code_arguments nat int
  | Exception_arguments nat int oopDesc
  | Object_arguments oopDesc
  | Code_arguments string int int
  | Class_file_arguments "8 word list"

text \<open>One invocation \<^verbatim>\<open>(*callback)(env->jvmti_external(), ...)\<close> of an agent callback.\<close>

datatype callback_call =
  Callback (call_env: JvmtiEnv) (call_event: jvmtiEvent) (call_arguments: payload)

datatype ExceptionState = ES_CLEARED | ES_DETECTED | ES_CAUGHT

datatype JvmtiClassLoadKind =
    jvmti_class_load_kind_load
  | jvmti_class_load_kind_retransform
  | jvmti_class_load_kind_redefine

text \<open>
  \<^verbatim>\<open>JvmtiEnvThreadState\<close>: the per-environment part of a thread's state. The class is
  declared outside the sources at hand; the fields are those the posting code reaches through
  \<^verbatim>\<open>get_env()\<close>, \<^verbatim>\<open>is_enabled(event)\<close>, \<^verbatim>\<open>breakpoint_posted()\<close>,
  \<^verbatim>\<open>single_stepping_posted()\<close> and the current-location marker (method id and
  location, \<open>None\<close> before any location was recorded).
\<close>

record JvmtiEnvThreadState =
  ets_env :: JvmtiEnv
  ets_is_enabled :: "jvmtiEvent \<Rightarrow> bool"
  current_location :: "(nat \<times> int) option"
  breakpoint_posted :: bool
  single_stepping_posted :: bool

text \<open>
  \<^verbatim>\<open>JvmtiThreadState\<close>, as far as the posting code reads and writes it. A collector
  slot holds the address of a collector object or \<open>None\<close> for the null pointer;
  \<open>cur_stack_depth = None\<close> is the invalidated depth.
\<close>

record JvmtiThreadState =
  exception_state :: ExceptionState
  env_thread_states :: "JvmtiEnvThreadState list"
  state_is_enabled :: "jvmtiEvent \<Rightarrow> bool"
  vm_object_alloc_event_collector :: "nat option"
  dynamic_code_event_collector :: "nat option"
  sampled_object_alloc_event_collector :: "nat option"
  cur_stack_depth :: "int option"
  class_being_redefined :: "nat option"
  class_load_kind :: JvmtiClassLoadKind

text \<open>
  The three concrete collector classes. \<^verbatim>\<open>is_vm_object_alloc_event()\<close>,
  \<^verbatim>\<open>is_dynamic_code_event()\<close> and \<^verbatim>\<open>is_sampled_object_alloc_event()\<close> tell them apart.
\<close>

datatype collector_kind =
    VM_object_alloc_collector
  | Dynamic_code_collector
  | Sampled_object_alloc_collector

text \<open>The function pointer \<^verbatim>\<open>_post_callback\<close> of an allocation collector.\<close>

datatype post_callback_fn =
    post_callback_null
  | post_callback_vm_object_alloc
  | post_callback_sampled_object_alloc

record JvmtiCodeBlobDesc =
  blob_name :: string
  blob_code_begin :: int
  blob_code_end :: int

text \<open>
  A collector object, the class hierarchy flattened: \<^verbatim>\<open>_prev\<close> and
  \<^verbatim>\<open>_unset_jvmti_thread_state\<close> of \<^verbatim>\<open>JvmtiEventCollector\<close>, \<^verbatim>\<open>_code_blobs\<close> of the
  dynamic-code collector, \<^verbatim>\<open>_allocated\<close>, \<^verbatim>\<open>_enable\<close> and \<^verbatim>\<open>_post_callback\<close> of
  the allocation collectors. A null array pointer is \<open>None\<close>.
\<close>

record JvmtiEventCollector =
  kind :: collector_kind
  prev :: "nat option"
  unset_jvmti_thread_state_flag :: bool
  code_blobs :: "JvmtiCodeBlobDesc list option"
  allocated :: "oopDesc list option"
  enable :: bool
  post_callback :: post_callback_fn

datatype ThreadState = BREAKPOINTED | Other_ThreadState nat

text \<open>
  A \<^verbatim>\<open>JavaThread\<close> with what the posting code touches: its JVMTI state (null is
  \<open>None\<close>), the flags it is asked for, the depth of its JNI handle blocks, the state of its
  \<^verbatim>\<open>osthread()\<close>, and the collector objects living on its stack, by address.
\<close>

record JavaThread =
  jvmti_thread_state :: "JvmtiThreadState option"
  should_hide_jvmti_events :: bool
  is_service_thread :: bool
  is_hidden_from_external_view :: bool
  is_BoundVirtualThread :: bool
  jni_handle_blocks :: nat
  osthread_state :: ThreadState
  collectors :: "nat \<rightharpoonup> JvmtiEventCollector"

text \<open>
  \<^verbatim>\<open>JvmtiExport::get_jvmti_thread_state\<close>. For a mounted virtual thread without state the
  source first calls \<^verbatim>\<open>JvmtiEventController::thread_started\<close>, which is outside the
  sources at hand; \<open>jvmti_thread_state\<close> stands for the pointer after that call.
\<close>

definition get_jvmti_thread_state :: "JavaThread \<Rightarrow> JvmtiThreadState option" where
  "get_jvmti_thread_state thread = jvmti_thread_state thread"


definition set_exception_detected :: "JvmtiThreadState \<Rightarrow> JvmtiThreadState" where
  "set_exception_detected state = state\<lparr> exception_state := ES_DETECTED \<rparr>"

definition set_exception_caught :: "JvmtiThreadState \<Rightarrow> JvmtiThreadState" where
  "set_exception_caught state = state\<lparr> exception_state := ES_CAUGHT \<rparr>"

definition clear_exception_state :: "JvmtiThreadState \<Rightarrow> JvmtiThreadState" where
  "clear_exception_state state = state\<lparr> exception_state := ES_CLEARED \<rparr>"


text \<open>Writing through the thread's state pointer; nothing happens when it is null.\<close>

definition update_state :: "(JvmtiThreadState \<Rightarrow> JvmtiThreadState) \<Rightarrow> JavaThread \<Rightarrow> JavaThread" where
  "update_state f thread =
     (case jvmti_thread_state thread of
        None \<Rightarrow> thread
      | Some state \<Rightarrow> thread\<lparr> jvmti_thread_state := Some (f state) \<rparr>)"

definition clear_detected_exception :: "JavaThread \<Rightarrow> JavaThread" where
  "clear_detected_exception thread = update_state clear_exception_state thread"

subsection \<open>\<^verbatim>\<open>JvmtiEventMark\<close>\<close>

record JvmtiEventMark =
  saved_exception_state :: ExceptionState

text \<open>
  Constructor and destructor of \<^verbatim>\<open>JvmtiEventMark\<close>. Making the frame anchor walkable has
  no counterpart in this model.
\<close>

definition JvmtiEventMark_ctor :: "JavaThread \<Rightarrow> JvmtiEventMark \<times> JavaThread" where
  "JvmtiEventMark_ctor thread =
     (\<lparr> saved_exception_state =
          (case jvmti_thread_state thread of
             None \<Rightarrow> ES_CLEARED
           | Some state \<Rightarrow> exception_state state) \<rparr>,
      thread\<lparr> jni_handle_blocks := Suc (jni_handle_blocks thread) \<rparr>)"

definition JvmtiEventMark_dtor :: "JvmtiEventMark \<Rightarrow> JavaThread \<Rightarrow> JavaThread" where
  "JvmtiEventMark_dtor jem thread =
     update_state (\<lambda>state. state\<lparr> exception_state := saved_exception_state jem \<rparr>)
       (thread\<lparr> jni_handle_blocks := jni_handle_blocks thread - 1 \<rparr>)"

text \<open>
  A scope with a mark on the stack: the destructor runs on every way out of \<open>body\<close>,
  whose result \<open>r\<close> tells which way that was.
\<close>

definition with_JvmtiEventMark :: "(JavaThread \<Rightarrow> 'a \<times> JavaThread) \<Rightarrow> JavaThread \<Rightarrow> 'a \<times> JavaThread" where
  "with_JvmtiEventMark body thread =
     (case JvmtiEventMark_ctor thread of (jem, t1) \<Rightarrow>
        case body t1 of (r, t2) \<Rightarrow> (r, JvmtiEventMark_dtor jem t2))"

subsection \<open>Recording allocations\<close>

definition record_allocation :: "nat \<Rightarrow> oopDesc \<Rightarrow> JavaThread \<Rightarrow> JavaThread" where
  "record_allocation this obj thread =
     (case collectors thread this of
        None \<Rightarrow> thread
      | Some col \<Rightarrow>
          thread\<lparr> collectors := (collectors thread)(this \<mapsto>
            col\<lparr> allocated := Some ((case allocated col of None \<Rightarrow> [] | Some xs \<Rightarrow> xs) @ [obj]) \<rparr>) \<rparr>)"

text \<open>\<^verbatim>\<open>collector != nullptr && collector->is_enabled()\<close> for the pointer in a slot.\<close>

definition collector_enabled :: "JavaThread \<Rightarrow> nat option \<Rightarrow> bool" where
  "collector_enabled thread slot =
     (case slot of
        None \<Rightarrow> False
      | Some c \<Rightarrow> (case collectors thread c of None \<Rightarrow> False | Some col \<Rightarrow> enable col))"

definition record_vm_internal_object_allocation :: "oopDesc \<Rightarrow> JavaThread \<Rightarrow> JavaThread" where
  "record_vm_internal_object_allocation obj thread =
     (case jvmti_thread_state thread of
        None \<Rightarrow> thread
      | Some state \<Rightarrow>
          (case vm_object_alloc_event_collector state of
             None \<Rightarrow> thread
           | Some collector \<Rightarrow>
               if collector_enabled thread (Some collector) then
                 (if \<not> klass_is_Class_klass obj then record_allocation collector obj thread
                  else thread)
               else thread))"

definition record_sampled_internal_object_allocation :: "oopDesc \<Rightarrow> JavaThread \<Rightarrow> JavaThread" where
  "record_sampled_internal_object_allocation obj thread =
     (case jvmti_thread_state thread of
        None \<Rightarrow> thread
      | Some state \<Rightarrow>
          (case sampled_object_alloc_event_collector state of
             None \<Rightarrow> thread
           | Some collector \<Rightarrow>
               if collector_enabled thread (Some collector) then record_allocation collector obj thread
               else thread))"

subsection \<open>Agents\<close>

text \<open>
  What an agent callback does is not part of the program. It is modelled by the runtime
  operations it causes on the calling thread while it runs: allocations that reach
  \<^verbatim>\<open>record_vm_internal_object_allocation\<close> or
  \<^verbatim>\<open>record_sampled_internal_object_allocation\<close>, and changes of the thread's
  exception-reporting state (\<^verbatim>\<open>set_exception_detected\<close>, \<^verbatim>\<open>set_exception_caught\<close>,
  \<^verbatim>\<open>clear_detected_exception\<close>). An agent maps each callback invocation to the list of
  operations that invocation performs.
\<close>

datatype agent_op =
    Allocate_in_VM oopDesc
  | Allocate_sampled oopDesc
  | Detect_exception
  | Catch_exception
  | Clear_exception

type_synonym agent = "callback_call \<Rightarrow> agent_op list"

fun exec_agent_op :: "agent_op \<Rightarrow> JavaThread \<Rightarrow> JavaThread" where
  "exec_agent_op (Allocate_in_VM obj) thread = record_vm_internal_object_allocation obj thread"
| "exec_agent_op (Allocate_sampled obj) thread = record_sampled_internal_object_allocation obj thread"
| "exec_agent_op Detect_exception thread = update_state set_exception_detected thread"
| "exec_agent_op Catch_exception thread = update_state set_exception_caught thread"
| "exec_agent_op Clear_exception thread = clear_detected_exception thread"

definition invoke_callback :: "agent \<Rightarrow> callback_call \<Rightarrow> JavaThread \<Rightarrow> callback_call list \<times> JavaThread" where
  "invoke_callback agent call thread = ([call], fold exec_agent_op (agent call) thread)"

text \<open>
  The block every posting loop runs for an environment it has selected: an event mark, the
  thread transition (no counterpart here), and the call when the table entry is not null.
\<close>

definition deliver :: "agent \<Rightarrow> bool \<Rightarrow> callback_call \<Rightarrow> JavaThread \<Rightarrow> callback_call list \<times> JavaThread" where
  "deliver agent callback_not_null call thread =
     with_JvmtiEventMark
       (\<lambda>t. if callback_not_null then invoke_callback agent call t else ([], t)) thread"

text \<open>
  \<^verbatim>\<open>for (e = it.first(); e != nullptr; e = it.next(e)) body\<close>. The iterator classes are
  declared outside the sources at hand; the list is the sequence they yield. None of the
  agent operations modelled changes the list being iterated.
\<close>

fun for_each :: "('e \<Rightarrow> 's \<Rightarrow> callback_call list \<times> 's) \<Rightarrow> 'e list \<Rightarrow> 's \<Rightarrow>
    callback_call list \<times> 's" where
  "for_each body [] thread = ([], thread)"
| "for_each body (e # rest) thread =
     (case body e thread of (calls, t1) \<Rightarrow>
        case for_each body rest t1 of (calls', t2) \<Rightarrow> (calls @ calls', t2))"

section \<open>Posting events\<close>

text \<open>
  The process-wide values the posting code reads: the numbering of the phases, the current
  phase (\<^verbatim>\<open>JvmtiEnv::get_phase()\<close>), the environments in the order the environment
  iterator yields them, \<^verbatim>\<open>JvmtiEventController::is_enabled(event)\<close>, and the
  \<^verbatim>\<open>JvmtiExport\<close> flags asked for below.
\<close>

record vm =
  phase_value :: "jvmtiPhase \<Rightarrow> int"
  get_phase :: jvmtiPhase
  env_list :: "JvmtiEnv list"
  EventController_is_enabled :: "jvmtiEvent \<Rightarrow> bool"
  can_support_virtual_threads :: bool
  should_post_vm_object_alloc :: bool
  should_post_sampled_object_alloc :: bool
  should_post_dynamic_code_generated :: bool

text \<open>\<^verbatim>\<open>JvmtiEnv::get_phase() < JVMTI_PHASE_PRIMORDIAL\<close>, the guard of the gated entry points.\<close>

definition below_primordial :: "vm \<Rightarrow> bool" where
  "below_primordial vm = (phase_value vm (get_phase vm) < phase_value vm JVMTI_PHASE_PRIMORDIAL)"

datatype vm_error = Assertion_failed string | Guarantee_failed string | Null_pointer_dereference

subsection \<open>Object allocation events\<close>

definition post_vm_object_alloc ::
  "vm \<Rightarrow> agent \<Rightarrow> JavaThread \<Rightarrow> oopDesc option \<Rightarrow> callback_call list \<times> JavaThread" where
  "post_vm_object_alloc vm agent thread object =
     (case object of
        None \<Rightarrow> ([], thread)
      | Some obj \<Rightarrow>
          if should_hide_jvmti_events thread then ([], thread)
          else
            for_each
              (\<lambda>env t.
                 if env_is_enabled env JVMTI_EVENT_VM_OBJECT_ALLOC then
                   deliver agent (has_callback env JVMTI_EVENT_VM_OBJECT_ALLOC)
                     (Callback env JVMTI_EVENT_VM_OBJECT_ALLOC (Object_arguments obj)) t
                 else ([], t))
              (env_list vm) thread)"

definition post_sampled_object_alloc ::
  "agent \<Rightarrow> JavaThread \<Rightarrow> oopDesc option \<Rightarrow> callback_call list \<times> JavaThread" where
  "post_sampled_object_alloc agent thread object =
     (case get_jvmti_thread_state thread of
        None \<Rightarrow> ([], thread)
      | Some state \<Rightarrow>
          (case object of
             None \<Rightarrow> ([], thread)
           | Some obj \<Rightarrow>
               if should_hide_jvmti_events thread then ([], thread)
               else
                 for_each
                   (\<lambda>ets t.
                      if ets_is_enabled ets JVMTI_EVENT_SAMPLED_OBJECT_ALLOC then
                        deliver agent (has_callback (ets_env ets) JVMTI_EVENT_SAMPLED_OBJECT_ALLOC)
                          (Callback (ets_env ets) JVMTI_EVENT_SAMPLED_OBJECT_ALLOC (Object_arguments obj)) t
                      else ([], t))
                   (env_thread_states state) thread))"

subsection \<open>The class-file-load hook\<close>

text \<open>
  \<^verbatim>\<open>JvmtiClassFileLoadHookPoster\<close>. Class-file data are byte lists; \<open>curr_env\<close> is
  \<open>None\<close> as long as no agent has replaced the data, which is when the source finds
  \<^verbatim>\<open>_curr_data == *_data_ptr\<close>. Freeing replaced buffers and the read edges added for a
  redefined class's module have no counterpart here.
\<close>

record JvmtiClassFileLoadHookPoster =
  poster_load_kind :: JvmtiClassLoadKind
  poster_class_being_redefined :: "nat option"
  curr_data :: "8 word list"
  curr_env :: "JvmtiEnv option"
  cached_class_file :: "8 word list option"
  has_been_modified :: bool

definition JvmtiClassFileLoadHookPoster_ctor ::
  "8 word list \<Rightarrow> 8 word list option \<Rightarrow> JavaThread \<Rightarrow> JvmtiClassFileLoadHookPoster \<times> JavaThread" where
  "JvmtiClassFileLoadHookPoster_ctor data cache thread =
     (case get_jvmti_thread_state thread of
        Some state \<Rightarrow>
          (\<lparr> poster_load_kind = class_load_kind state,
             poster_class_being_redefined = class_being_redefined state,
             curr_data = data, curr_env = None, cached_class_file = cache,
             has_been_modified = False \<rparr>,
           update_state (\<lambda>s. s\<lparr> class_being_redefined := None \<rparr>) thread)
      | None \<Rightarrow>
          (\<lparr> poster_load_kind = jvmti_class_load_kind_load,
             poster_class_being_redefined = None,
             curr_data = data, curr_env = None, cached_class_file = cache,
             has_been_modified = False \<rparr>,
           thread))"

text \<open>
  \<open>new_class_data call\<close> is what the agent stores in \<^verbatim>\<open>*new_class_data\<close> during that
  call, \<open>None\<close> when it leaves the pointer null.
\<close>

definition post_to_env ::
  "agent \<Rightarrow> (callback_call \<Rightarrow> 8 word list option) \<Rightarrow> JvmtiEnv \<Rightarrow> bool \<Rightarrow>
   JvmtiClassFileLoadHookPoster \<times> JavaThread \<Rightarrow>
   callback_call list \<times> JvmtiClassFileLoadHookPoster \<times> JavaThread" where
  "post_to_env agent new_class_data env caching_needed s =
     (case s of (poster, thread) \<Rightarrow>
        if env_phase env = JVMTI_PHASE_PRIMORDIAL \<and> \<not> early_class_hook_env env then ([], s)
        else
          let call = Callback env JVMTI_EVENT_CLASS_FILE_LOAD_HOOK (Class_file_arguments (curr_data poster));
              new_data = (if has_callback env JVMTI_EVENT_CLASS_FILE_LOAD_HOOK then new_class_data call else None)
          in case deliver agent (has_callback env JVMTI_EVENT_CLASS_FILE_LOAD_HOOK) call thread of
               (calls, t1) \<Rightarrow>
                 (case new_data of
                    None \<Rightarrow> (calls, poster, t1)
                  | Some d \<Rightarrow>
                      (calls,
                       poster\<lparr> has_been_modified := True,
                               cached_class_file :=
                                 (if caching_needed \<and> cached_class_file poster = None
                                  then Some (curr_data poster) else cached_class_file poster),
                               curr_data := d,
                               curr_env := Some env \<rparr>,
                       t1)))"

definition post_all_envs ::
  "vm \<Rightarrow> agent \<Rightarrow> (callback_call \<Rightarrow> 8 word list option) \<Rightarrow>
   JvmtiClassFileLoadHookPoster \<times> JavaThread \<Rightarrow>
   callback_call list \<times> JvmtiClassFileLoadHookPoster \<times> JavaThread" where
  "post_all_envs vm agent new_class_data s =
     (case (if poster_load_kind (fst s) \<noteq> jvmti_class_load_kind_retransform then
              for_each
                (\<lambda>env s'.
                   if \<not> is_retransformable env \<and> env_is_enabled env JVMTI_EVENT_CLASS_FILE_LOAD_HOOK
                   then post_to_env agent new_class_data env False s' else ([], s'))
                (env_list vm) s
            else ([], s)) of
        (calls1, s1) \<Rightarrow>
          (case for_each
                  (\<lambda>env s'.
                     if is_retransformable env \<and> env_is_enabled env JVMTI_EVENT_CLASS_FILE_LOAD_HOOK
                     then post_to_env agent new_class_data env True s' else ([], s'))
                  (env_list vm) s1 of
             (calls2, s2) \<Rightarrow> (calls1 @ calls2, s2)))"

text \<open>The contents of \<^verbatim>\<open>*data_ptr\<close> after \<^verbatim>\<open>copy_modified_data\<close>.\<close>

definition copy_modified_data :: "JvmtiClassFileLoadHookPoster \<Rightarrow> 8 word list \<Rightarrow> 8 word list" where
  "copy_modified_data poster data = (if curr_env poster \<noteq> None then curr_data poster else data)"

text \<open>
  The result holds the calls made, then the returned flag, the contents of \<^verbatim>\<open>*data_ptr\<close>
  and of \<^verbatim>\<open>*cache_ptr\<close>, and the thread.
\<close>

definition post_class_file_load_hook ::
  "vm \<Rightarrow> agent \<Rightarrow> (callback_call \<Rightarrow> 8 word list option) \<Rightarrow> JavaThread \<Rightarrow>
   8 word list \<Rightarrow> 8 word list option \<Rightarrow>
   callback_call list \<times> (bool \<times> 8 word list \<times> 8 word list option) \<times> JavaThread" where
  "post_class_file_load_hook vm agent new_class_data thread data cache =
     (if below_primordial vm then ([], (False, data, cache), thread)
      else if should_hide_jvmti_events thread then ([], (False, data, cache), thread)
      else
        case post_all_envs vm agent new_class_data (JvmtiClassFileLoadHookPoster_ctor data cache thread) of
          (calls, poster, t1) \<Rightarrow>
            (calls,
             (has_been_modified poster, copy_modified_data poster data, cached_class_file poster),
             t1))"

subsection \<open>Entry points guarded by the process-wide phase\<close>

definition post_compiled_method_unload ::
  "vm \<Rightarrow> agent \<Rightarrow> JavaThread \<Rightarrow> nat \<Rightarrow> int \<Rightarrow> callback_call list \<times> JavaThread" where
  "post_compiled_method_unload vm agent thread method code_begin =
     (if below_primordial vm then ([], thread)
      else
        for_each
          (\<lambda>env t.
             if env_is_enabled env JVMTI_EVENT_COMPILED_METHOD_UNLOAD then
               (if env_phase env = JVMTI_PHASE_PRIMORDIAL then ([], t)
                else deliver agent (has_callback env JVMTI_EVENT_COMPILED_METHOD_UNLOAD)
                       (Callback env JVMTI_EVENT_COMPILED_METHOD_UNLOAD
                          (Compiled_code_arguments method code_begin)) t)
             else ([], t))
          (env_list vm) thread)"

record nmethod =
  nm_method :: nat
  nm_code_begin :: int
  nm_is_unloading :: bool

text \<open>\<^verbatim>\<open>post_compiled_method_load(JvmtiEnv* env, nmethod *nm)\<close>, for one environment.\<close>

definition post_compiled_method_load_env ::
  "agent \<Rightarrow> JvmtiEnv \<Rightarrow> nmethod \<Rightarrow> JavaThread \<Rightarrow> callback_call list \<times> JavaThread" where
  "post_compiled_method_load_env agent env nm thread =
     (if env_phase env = JVMTI_PHASE_PRIMORDIAL \<or> \<not> env_is_enabled env JVMTI_EVENT_COMPILED_METHOD_LOAD
      then ([], thread)
      else if \<not> has_callback env JVMTI_EVENT_COMPILED_METHOD_LOAD then ([], thread)
      else deliver agent True
             (Callback env JVMTI_EVENT_COMPILED_METHOD_LOAD
                (Compiled_code_arguments (nm_method nm) (nm_code_begin nm))) thread)"

definition post_compiled_method_load ::
  "vm \<Rightarrow> agent \<Rightarrow> JavaThread \<Rightarrow> nmethod \<Rightarrow> vm_error + callback_call list \<times> JavaThread" where
  "post_compiled_method_load vm agent thread nm =
     (if nm_is_unloading nm then Inl (Guarantee_failed ''nmethod isn't unloaded or unloading'')
      else if below_primordial vm then Inr ([], thread)
      else Inr (for_each (\<lambda>env t. post_compiled_method_load_env agent env nm t) (env_list vm) thread))"

definition post_class_load ::
  "vm \<Rightarrow> agent \<Rightarrow> JavaThread \<Rightarrow> nat \<Rightarrow> callback_call list \<times> JavaThread" where
  "post_class_load vm agent thread klass =
     (if below_primordial vm then ([], thread)
      else
        case get_jvmti_thread_state thread of
          None \<Rightarrow> ([], thread)
        | Some state \<Rightarrow>
            if should_hide_jvmti_events thread then ([], thread)
            else
              for_each
                (\<lambda>ets t.
                   if ets_is_enabled ets JVMTI_EVENT_CLASS_LOAD then
                     (if env_phase (ets_env ets) = JVMTI_PHASE_PRIMORDIAL then ([], t)
                      else deliver agent (has_callback (ets_env ets) JVMTI_EVENT_CLASS_LOAD)
                             (Callback (ets_env ets) JVMTI_EVENT_CLASS_LOAD (Class_arguments klass)) t)
                   else ([], t))
                (env_thread_states state) thread)"

definition post_class_prepare ::
  "vm \<Rightarrow> agent \<Rightarrow> JavaThread \<Rightarrow> nat \<Rightarrow> callback_call list \<times> JavaThread" where
  "post_class_prepare vm agent thread klass =
     (if below_primordial vm then ([], thread)
      else
        case get_jvmti_thread_state thread of
          None \<Rightarrow> ([], thread)
        | Some state \<Rightarrow>
            if should_hide_jvmti_events thread then ([], thread)
            else
              for_each
                (\<lambda>ets t.
                   if ets_is_enabled ets JVMTI_EVENT_CLASS_PREPARE then
                     (if env_phase (ets_env ets) = JVMTI_PHASE_PRIMORDIAL then ([], t)
                      else deliver agent (has_callback (ets_env ets) JVMTI_EVENT_CLASS_PREPARE)
                             (Callback (ets_env ets) JVMTI_EVENT_CLASS_PREPARE (Class_arguments klass)) t)
                   else ([], t))
                (env_thread_states state) thread)"

text \<open>
  \<^verbatim>\<open>post_class_unload_internal\<close> asserts that it runs on the service thread; the
  assertion is part of the model, a failure being the result \<open>Inl\<close>.
\<close>

definition post_class_unload_internal ::
  "vm \<Rightarrow> agent \<Rightarrow> JavaThread \<Rightarrow> string \<Rightarrow> vm_error + callback_call list \<times> JavaThread" where
  "post_class_unload_internal vm agent thread name =
     (if below_primordial vm then Inr ([], thread)
      else if \<not> is_service_thread thread then Inl (Assertion_failed ''must be called from ServiceThread'')
      else if EventController_is_enabled vm EXT_EVENT_CLASS_UNLOAD then
        Inr (for_each
          (\<lambda>env t.
             if env_phase env = JVMTI_PHASE_PRIMORDIAL then ([], t)
             else if env_is_enabled env EXT_EVENT_CLASS_UNLOAD then
               deliver agent (has_callback env EXT_EVENT_CLASS_UNLOAD)
                 (Callback env EXT_EVENT_CLASS_UNLOAD (Name_arguments name)) t
             else ([], t))
          (env_list vm) thread)
      else Inr ([], thread))"

definition post_vthread_start ::
  "vm \<Rightarrow> agent \<Rightarrow> JavaThread \<Rightarrow> callback_call list \<times> JavaThread" where
  "post_vthread_start vm agent thread =
     (if below_primordial vm then ([], thread)
      else if EventController_is_enabled vm JVMTI_EVENT_VIRTUAL_THREAD_START then
        for_each
          (\<lambda>env t.
             if env_phase env = JVMTI_PHASE_PRIMORDIAL then ([], t)
             else if env_is_enabled env JVMTI_EVENT_VIRTUAL_THREAD_START then
               deliver agent (has_callback env JVMTI_EVENT_VIRTUAL_THREAD_START)
                 (Callback env JVMTI_EVENT_VIRTUAL_THREAD_START Thread_arguments) t
             else ([], t))
          (env_list vm) thread
      else ([], thread))"

text \<open>
  The loop shared, up to the event, by \<^verbatim>\<open>post_thread_end\<close>, \<^verbatim>\<open>post_vthread_end\<close>,
  \<^verbatim>\<open>post_vthread_mount\<close> and \<^verbatim>\<open>post_vthread_unmount\<close>, which the source writes out
  four times.
\<close>

definition post_to_thread_envs ::
  "agent \<Rightarrow> jvmtiEvent \<Rightarrow> JvmtiThreadState \<Rightarrow> JavaThread \<Rightarrow> callback_call list \<times> JavaThread" where
  "post_to_thread_envs agent event state thread =
     for_each
       (\<lambda>ets t.
          if env_phase (ets_env ets) = JVMTI_PHASE_PRIMORDIAL then ([], t)
          else if ets_is_enabled ets event then
            deliver agent (has_callback (ets_env ets) event)
              (Callback (ets_env ets) event Thread_arguments) t
          else ([], t))
       (env_thread_states state) thread"

definition post_vthread_end ::
  "vm \<Rightarrow> agent \<Rightarrow> JavaThread \<Rightarrow> callback_call list \<times> JavaThread" where
  "post_vthread_end vm agent thread =
     (if below_primordial vm then ([], thread)
      else
        case get_jvmti_thread_state thread of
          None \<Rightarrow> ([], thread)
        | Some state \<Rightarrow>
            if state_is_enabled state JVMTI_EVENT_VIRTUAL_THREAD_END
            then post_to_thread_envs agent JVMTI_EVENT_VIRTUAL_THREAD_END state thread
            else ([], thread))"

definition post_vthread_mount ::
  "vm \<Rightarrow> agent \<Rightarrow> JavaThread \<Rightarrow> callback_call list \<times> JavaThread" where
  "post_vthread_mount vm agent thread =
     (if below_primordial vm then ([], thread)
      else
        case get_jvmti_thread_state thread of
          None \<Rightarrow> ([], thread)
        | Some state \<Rightarrow>
            if state_is_enabled state EXT_EVENT_VIRTUAL_THREAD_MOUNT
            then post_to_thread_envs agent EXT_EVENT_VIRTUAL_THREAD_MOUNT state thread
            else ([], thread))"

definition post_vthread_unmount ::
  "vm \<Rightarrow> agent \<Rightarrow> JavaThread \<Rightarrow> callback_call list \<times> JavaThread" where
  "post_vthread_unmount vm agent thread =
     (if below_primordial vm then ([], thread)
      else
        case get_jvmti_thread_state thread of
          None \<Rightarrow> ([], thread)
        | Some state \<Rightarrow>
            if state_is_enabled state EXT_EVENT_VIRTUAL_THREAD_UNMOUNT
            then post_to_thread_envs agent EXT_EVENT_VIRTUAL_THREAD_UNMOUNT state thread
            else ([], thread))"

text \<open>
  \<open>thread_started\<close> is \<^verbatim>\<open>JvmtiEventController::thread_started\<close>, which initialises the
  thread's JVMTI state and is outside the sources at hand.
\<close>

definition post_thread_start ::
  "vm \<Rightarrow> (JavaThread \<Rightarrow> JavaThread) \<Rightarrow> agent \<Rightarrow> JavaThread \<Rightarrow> callback_call list \<times> JavaThread" where
  "post_thread_start vm thread_started agent thread0 =
     (if below_primordial vm then ([], thread0)
      else
        let thread = thread_started thread0 in
        if is_BoundVirtualThread thread then
          (if can_support_virtual_threads vm then post_vthread_start vm agent thread
           else ([], thread))
        else if EventController_is_enabled vm JVMTI_EVENT_THREAD_START
                \<and> \<not> is_hidden_from_external_view thread then
          for_each
            (\<lambda>env t.
               if env_phase env = JVMTI_PHASE_PRIMORDIAL then ([], t)
               else if env_is_enabled env JVMTI_EVENT_THREAD_START then
                 deliver agent (has_callback env JVMTI_EVENT_THREAD_START)
                   (Callback env JVMTI_EVENT_THREAD_START Thread_arguments) t
               else ([], t))
            (env_list vm) thread
        else ([], thread))"

definition post_thread_end ::
  "vm \<Rightarrow> agent \<Rightarrow> JavaThread \<Rightarrow> callback_call list \<times> JavaThread" where
  "post_thread_end vm agent thread =
     (if below_primordial vm then ([], thread)
      else
        case get_jvmti_thread_state thread of
          None \<Rightarrow> ([], thread)
        | Some state \<Rightarrow>
            if is_BoundVirtualThread thread then
              (if can_support_virtual_threads vm then post_vthread_end vm agent thread
               else ([], thread))
            else if state_is_enabled state JVMTI_EVENT_THREAD_END
                    \<and> \<not> is_hidden_from_external_view thread
            then post_to_thread_envs agent JVMTI_EVENT_THREAD_END state thread
            else ([], thread))"

text \<open>The gated entry points that can reach an agent callback, and one call of each.\<close>

datatype gated_post =
    Post_class_file_load_hook "callback_call \<Rightarrow> 8 word list option" "8 word list" "8 word list option"
  | Post_compiled_method_unload nat int
  | Post_compiled_method_load nmethod
  | Post_class_load nat
  | Post_class_prepare nat
  | Post_class_unload_internal string
  | Post_thread_start "JavaThread \<Rightarrow> JavaThread"
  | Post_thread_end
  | Post_vthread_start
  | Post_vthread_end
  | Post_vthread_mount
  | Post_vthread_unmount

fun gated_post_call ::
  "vm \<Rightarrow> agent \<Rightarrow> JavaThread \<Rightarrow> gated_post \<Rightarrow> vm_error + callback_call list \<times> JavaThread" where
  "gated_post_call vm agent thread (Post_class_file_load_hook new_class_data data cache) =
     (case post_class_file_load_hook vm agent new_class_data thread data cache of
        (calls, r, t) \<Rightarrow> Inr (calls, t))"
| "gated_post_call vm agent thread (Post_compiled_method_unload method code_begin) =
     Inr (post_compiled_method_unload vm agent thread method code_begin)"
| "gated_post_call vm agent thread (Post_compiled_method_load nm) =
     post_compiled_method_load vm agent thread nm"
| "gated_post_call vm agent thread (Post_class_load klass) = Inr (post_class_load vm agent thread klass)"
| "gated_post_call vm agent thread (Post_class_prepare klass) = Inr (post_class_prepare vm agent thread klass)"
| "gated_post_call vm agent thread (Post_class_unload_internal name) =
     post_class_unload_internal vm agent thread name"
| "gated_post_call vm agent thread (Post_thread_start thread_started) =
     Inr (post_thread_start vm thread_started agent thread)"
| "gated_post_call vm agent thread Post_thread_end = Inr (post_thread_end vm agent thread)"
| "gated_post_call vm agent thread Post_vthread_start = Inr (post_vthread_start vm agent thread)"
| "gated_post_call vm agent thread Post_vthread_end = Inr (post_vthread_end vm agent thread)"
| "gated_post_call vm agent thread Post_vthread_mount = Inr (post_vthread_mount vm agent thread)"
| "gated_post_call vm agent thread Post_vthread_unmount = Inr (post_vthread_unmount vm agent thread)"

subsection \<open>Deferred events\<close>

datatype JvmtiDeferredEvent =
    class_unload_event string
  | dynamic_code_generated_event string int int

text \<open>
  Modelled from the spec: \<^verbatim>\<open>ServiceThread::enqueue_deferred_event\<close> and
  \<^verbatim>\<open>JvmtiDeferredEvent\<close> are not part of the sources at hand. The spec's \<open>enqueue\<close>
  "appends a self-contained, heap-owned copy of the event", and the worker "dequeues in FIFO
  order". The record holds its strings by value.
\<close>

definition enqueue_deferred_event :: "JvmtiDeferredEvent \<Rightarrow> JvmtiDeferredEvent list \<Rightarrow> JvmtiDeferredEvent list" where
  "enqueue_deferred_event event queue = queue @ [event]"


definition post_dynamic_code_generated_internal ::
  "vm \<Rightarrow> agent \<Rightarrow> JavaThread \<Rightarrow> string \<Rightarrow> int \<Rightarrow> int \<Rightarrow> callback_call list \<times> JavaThread" where
  "post_dynamic_code_generated_internal vm agent thread name code_begin code_end =
     for_each
       (\<lambda>env t.
          if env_is_enabled env JVMTI_EVENT_DYNAMIC_CODE_GENERATED then
            deliver agent (has_callback env JVMTI_EVENT_DYNAMIC_CODE_GENERATED)
              (Callback env JVMTI_EVENT_DYNAMIC_CODE_GENERATED
                 (Code_arguments name code_begin (code_end - code_begin))) t
          else ([], t))
       (env_list vm) thread"

definition post_dynamic_code_generated ::
  "vm \<Rightarrow> agent \<Rightarrow> string \<Rightarrow> int \<Rightarrow> int \<Rightarrow> JvmtiDeferredEvent list \<times> JavaThread \<Rightarrow>
   callback_call list \<times> JvmtiDeferredEvent list \<times> JavaThread" where
  "post_dynamic_code_generated vm agent name code_begin code_end s =
     (case s of (queue, thread) \<Rightarrow>
        if get_phase vm = JVMTI_PHASE_PRIMORDIAL \<or> get_phase vm = JVMTI_PHASE_START then
          (case post_dynamic_code_generated_internal vm agent thread name code_begin code_end of
             (calls, t1) \<Rightarrow> (calls, queue, t1))
        else
          ([], enqueue_deferred_event (dynamic_code_generated_event name code_begin code_end) queue,
           thread))"

subsection \<open>Single step and breakpoint\<close>

text \<open>
  Modelled from the spec: \<^verbatim>\<open>JvmtiEnvThreadState::compare_and_set_current_location\<close> is
  not part of the sources at hand. The spec's policy for location-based events is that, "per
  environment-thread pair, an event at the same method+location is suppressed until the
  location changes", "tracked via the current location marker", "compared and updated" by the
  triggering thread: at the recorded location the posted flags stay as they are, at a new
  location the marker moves and both flags are cleared.
\<close>

definition compare_and_set_current_location ::
  "Method \<Rightarrow> int \<Rightarrow> jvmtiEvent \<Rightarrow> JvmtiEnvThreadState \<Rightarrow> JvmtiEnvThreadState" where
  "compare_and_set_current_location new_method new_location event ets =
     (if current_location ets = Some (jmethod_id new_method, new_location - code_base new_method)
      then ets
      else ets\<lparr> current_location := Some (jmethod_id new_method, new_location - code_base new_method),
                breakpoint_posted := False,
                single_stepping_posted := False \<rparr>)"

text \<open>
  The two loops change the per-environment states they iterate over. They are given the
  thread's list and return the updated one, which the posting function stores back; the
  agent operations modelled do not touch that list.
\<close>

fun single_step_loop ::
  "agent \<Rightarrow> Method \<Rightarrow> int \<Rightarrow> JvmtiEnvThreadState list \<Rightarrow> JavaThread \<Rightarrow>
   callback_call list \<times> JvmtiEnvThreadState list \<times> JavaThread" where
  "single_step_loop agent mh location [] thread = ([], [], thread)"
| "single_step_loop agent mh location (ets0 # rest) thread =
     (let ets = compare_and_set_current_location mh location JVMTI_EVENT_SINGLE_STEP ets0 in
      if \<not> single_stepping_posted ets \<and> ets_is_enabled ets JVMTI_EVENT_SINGLE_STEP then
        (case deliver agent (has_callback (ets_env ets) JVMTI_EVENT_SINGLE_STEP)
                (Callback (ets_env ets) JVMTI_EVENT_SINGLE_STEP
                   (Location_arguments (jmethod_id mh) (location - code_base mh))) thread of
           (calls, t1) \<Rightarrow>
             (case single_step_loop agent mh location rest t1 of
                (calls', rest', t2) \<Rightarrow>
                  (calls @ calls', ets\<lparr> single_stepping_posted := True \<rparr> # rest', t2)))
      else
        (case single_step_loop agent mh location rest thread of
           (calls', rest', t2) \<Rightarrow> (calls', ets # rest', t2)))"

definition post_single_step ::
  "agent \<Rightarrow> JavaThread \<Rightarrow> Method \<Rightarrow> int \<Rightarrow> callback_call list \<times> JavaThread" where
  "post_single_step agent thread method location =
     (case get_jvmti_thread_state thread of
        None \<Rightarrow> ([], thread)
      | Some state \<Rightarrow>
          if jvmti_mount_transition method \<or> should_hide_jvmti_events thread then ([], thread)
          else
            case single_step_loop agent method location (env_thread_states state) thread of
              (calls, etss, t1) \<Rightarrow>
                (calls, update_state (\<lambda>s. s\<lparr> env_thread_states := etss \<rparr>) t1))"

fun breakpoint_loop ::
  "agent \<Rightarrow> Method \<Rightarrow> int \<Rightarrow> JvmtiEnvThreadState list \<Rightarrow> JavaThread \<Rightarrow>
   callback_call list \<times> JvmtiEnvThreadState list \<times> JavaThread" where
  "breakpoint_loop agent mh location [] thread = ([], [], thread)"
| "breakpoint_loop agent mh location (ets0 # rest) thread =
     (let ets = compare_and_set_current_location mh location JVMTI_EVENT_BREAKPOINT ets0 in
      if \<not> breakpoint_posted ets \<and> ets_is_enabled ets JVMTI_EVENT_BREAKPOINT then
        (let old_os_state = osthread_state thread in
         case deliver agent (has_callback (ets_env ets) JVMTI_EVENT_BREAKPOINT)
                (Callback (ets_env ets) JVMTI_EVENT_BREAKPOINT
                   (Location_arguments (jmethod_id mh) (location - code_base mh)))
                (thread\<lparr> osthread_state := BREAKPOINTED \<rparr>) of
           (calls, t1) \<Rightarrow>
             (case breakpoint_loop agent mh location rest (t1\<lparr> osthread_state := old_os_state \<rparr>) of
                (calls', rest', t2) \<Rightarrow>
                  (calls @ calls', ets\<lparr> breakpoint_posted := True \<rparr> # rest', t2)))
      else
        (case breakpoint_loop agent mh location rest thread of
           (calls', rest', t2) \<Rightarrow> (calls', ets # rest', t2)))"

definition post_raw_breakpoint ::
  "agent \<Rightarrow> JavaThread \<Rightarrow> Method \<Rightarrow> int \<Rightarrow> callback_call list \<times> JavaThread" where
  "post_raw_breakpoint agent thread method location =
     (case get_jvmti_thread_state thread of
        None \<Rightarrow> ([], thread)
      | Some state \<Rightarrow>
          if should_hide_jvmti_events thread then ([], thread)
          else
            case breakpoint_loop agent method location (env_thread_states state) thread of
              (calls, etss, t1) \<Rightarrow>
                (calls, update_state (\<lambda>s. s\<lparr> env_thread_states := etss \<rparr>) t1))"

text \<open>A post of one of the two location-gated events, and a sequence of such posts.\<close>

datatype location_post = Single_step Method int | Raw_breakpoint Method int

fun location_post_call :: "agent \<Rightarrow> JavaThread \<Rightarrow> location_post \<Rightarrow> callback_call list \<times> JavaThread" where
  "location_post_call agent thread (Single_step method location) =
     post_single_step agent thread method location"
| "location_post_call agent thread (Raw_breakpoint method location) =
     post_raw_breakpoint agent thread method location"

fun location_post_event :: "location_post \<Rightarrow> jvmtiEvent" where
  "location_post_event (Single_step method location) = JVMTI_EVENT_SINGLE_STEP"
| "location_post_event (Raw_breakpoint method location) = JVMTI_EVENT_BREAKPOINT"

fun location_post_at :: "location_post \<Rightarrow> nat \<times> int" where
  "location_post_at (Single_step method location) = (jmethod_id method, location - code_base method)"
| "location_post_at (Raw_breakpoint method location) = (jmethod_id method, location - code_base method)"

definition location_posts :: "agent \<Rightarrow> location_post list \<Rightarrow> JavaThread \<Rightarrow> callback_call list \<times> JavaThread" where
  "location_posts agent posts thread = for_each (\<lambda>p t. location_post_call agent t p) posts thread"

subsection \<open>Exception throw\<close>


subsection \<open>Event collectors\<close>

text \<open>
  Modelled from the spec: \<^verbatim>\<open>JvmtiThreadState::state_for\<close> is not part of the sources at
  hand. The per-thread state is "created when a thread first becomes visible to the event
  system (lazily, on first potential event)"; a fresh state has no exception in flight and
  empty collector slots.
\<close>

definition new_JvmtiThreadState :: JvmtiThreadState where
  "new_JvmtiThreadState =
     \<lparr> exception_state = ES_CLEARED, env_thread_states = [], state_is_enabled = (\<lambda>e. False),
       vm_object_alloc_event_collector = None, dynamic_code_event_collector = None,
       sampled_object_alloc_event_collector = None, cur_stack_depth = None,
       class_being_redefined = None, class_load_kind = jvmti_class_load_kind_load \<rparr>"

definition state_for :: "JavaThread \<Rightarrow> JavaThread" where
  "state_for thread =
     (case jvmti_thread_state thread of
        None \<Rightarrow> thread\<lparr> jvmti_thread_state := Some new_JvmtiThreadState \<rparr>
      | Some state \<Rightarrow> thread)"

text \<open>Writing a field of the collector object at an address.\<close>

definition update_collector :: "nat \<Rightarrow> (JvmtiEventCollector \<Rightarrow> JvmtiEventCollector) \<Rightarrow> JavaThread \<Rightarrow> JavaThread" where
  "update_collector this f thread =
     (case collectors thread this of
        None \<Rightarrow> thread
      | Some col \<Rightarrow> thread\<lparr> collectors := (collectors thread)(this \<mapsto> f col) \<rparr>)"

definition set_enabled :: "nat \<Rightarrow> bool \<Rightarrow> JavaThread \<Rightarrow> JavaThread" where
  "set_enabled this on thread = update_collector this (\<lambda>c. c\<lparr> enable := on \<rparr>) thread"

definition setup_jvmti_thread_state :: "nat \<Rightarrow> JavaThread \<Rightarrow> JavaThread" where
  "setup_jvmti_thread_state this thread0 =
     (let thread = state_for thread0 in
      case jvmti_thread_state thread of
        None \<Rightarrow> thread
      | Some state \<Rightarrow>
          (case collectors thread this of
             None \<Rightarrow> thread
           | Some col \<Rightarrow>
               (case kind col of
                  VM_object_alloc_collector \<Rightarrow>
                    (let prev_collector = vm_object_alloc_event_collector state in
                     if prev_collector \<noteq> None \<and> \<not> collector_enabled thread prev_collector then thread
                     else
                       thread\<lparr> collectors := (collectors thread)(this \<mapsto>
                                  col\<lparr> prev := prev_collector, unset_jvmti_thread_state_flag := True \<rparr>),
                               jvmti_thread_state :=
                                  Some (state\<lparr> vm_object_alloc_event_collector := Some this \<rparr>) \<rparr>)
                | Dynamic_code_collector \<Rightarrow>
                    thread\<lparr> collectors := (collectors thread)(this \<mapsto>
                               col\<lparr> prev := dynamic_code_event_collector state,
                                    unset_jvmti_thread_state_flag := True \<rparr>),
                            jvmti_thread_state :=
                               Some (state\<lparr> dynamic_code_event_collector := Some this \<rparr>) \<rparr>
                | Sampled_object_alloc_collector \<Rightarrow>
                    (if sampled_object_alloc_event_collector state \<noteq> None then thread
                     else
                       thread\<lparr> collectors := (collectors thread)(this \<mapsto>
                                  col\<lparr> unset_jvmti_thread_state_flag := True \<rparr>),
                               jvmti_thread_state :=
                                  Some (state\<lparr> sampled_object_alloc_event_collector := Some this \<rparr>) \<rparr>))))"

definition unset_jvmti_thread_state :: "nat \<Rightarrow> JavaThread \<Rightarrow> JavaThread" where
  "unset_jvmti_thread_state this thread =
     (case collectors thread this of
        None \<Rightarrow> thread
      | Some col \<Rightarrow>
          if \<not> unset_jvmti_thread_state_flag col then thread
          else
            (case jvmti_thread_state thread of
               None \<Rightarrow> thread
             | Some state \<Rightarrow>
                 (case kind col of
                    VM_object_alloc_collector \<Rightarrow>
                      if vm_object_alloc_event_collector state = Some this then
                        thread\<lparr> jvmti_thread_state :=
                          Some (state\<lparr> vm_object_alloc_event_collector := prev col \<rparr>) \<rparr>
                      else thread
                  | Dynamic_code_collector \<Rightarrow>
                      if dynamic_code_event_collector state = Some this then
                        thread\<lparr> jvmti_thread_state :=
                          Some (state\<lparr> dynamic_code_event_collector := prev col \<rparr>) \<rparr>
                      else thread
                  | Sampled_object_alloc_collector \<Rightarrow>
                      if sampled_object_alloc_event_collector state = Some this then
                        thread\<lparr> jvmti_thread_state :=
                          Some (state\<lparr> sampled_object_alloc_event_collector := prev col \<rparr>) \<rparr>
                      else thread)))"

text \<open>
  A collector is a stack object: its constructor starts from the member initialisers at a
  fresh address \<open>this\<close>, and the end of its destructor removes the object.
\<close>

definition new_collector :: "collector_kind \<Rightarrow> JvmtiEventCollector" where
  "new_collector k =
     \<lparr> kind = k, prev = None, unset_jvmti_thread_state_flag = False, code_blobs = None,
       allocated = None, enable = False, post_callback = post_callback_null \<rparr>"

definition construct :: "collector_kind \<Rightarrow> nat \<Rightarrow> JavaThread \<Rightarrow> JavaThread" where
  "construct k this thread = thread\<lparr> collectors := (collectors thread)(this \<mapsto> new_collector k) \<rparr>"

definition destroy :: "nat \<Rightarrow> JavaThread \<Rightarrow> JavaThread" where
  "destroy this thread = thread\<lparr> collectors := (collectors thread)(this := None) \<rparr>"

definition call_post_callback ::
  "post_callback_fn \<Rightarrow> vm \<Rightarrow> agent \<Rightarrow> JavaThread \<Rightarrow> oopDesc \<Rightarrow> vm_error + callback_call list \<times> JavaThread" where
  "call_post_callback f vm agent thread obj =
     (case f of
        post_callback_null \<Rightarrow> Inl Null_pointer_dereference
      | post_callback_vm_object_alloc \<Rightarrow> Inr (post_vm_object_alloc vm agent thread (Some obj))
      | post_callback_sampled_object_alloc \<Rightarrow> Inr (post_sampled_object_alloc agent thread (Some obj)))"

text \<open>
  The loop of \<^verbatim>\<open>generate_call_for_allocated\<close>. It reads \<^verbatim>\<open>_allocated->length()\<close>
  again on every round while callbacks run in between, so nothing in the loop itself bounds
  the number of rounds: the model counts them down from \<open>fuel\<close>, and \<open>None\<close> means the
  fuel did not suffice.
\<close>

fun generate_loop ::
  "nat \<Rightarrow> vm \<Rightarrow> agent \<Rightarrow> nat \<Rightarrow> nat \<Rightarrow> JavaThread \<Rightarrow> (vm_error + callback_call list \<times> JavaThread) option" where
  "generate_loop 0 vm agent this i thread = None"
| "generate_loop (Suc fuel) vm agent this i thread =
     (case collectors thread this of
        None \<Rightarrow> Some (Inl Null_pointer_dereference)
      | Some col \<Rightarrow>
          (case allocated col of
             None \<Rightarrow> Some (Inl Null_pointer_dereference)
           | Some xs \<Rightarrow>
               if i < length xs then
                 (case call_post_callback (post_callback col) vm agent thread (xs ! i) of
                    Inl e \<Rightarrow> Some (Inl e)
                  | Inr (calls, t1) \<Rightarrow>
                      (case generate_loop fuel vm agent this (Suc i) t1 of
                         None \<Rightarrow> None
                       | Some (Inl e) \<Rightarrow> Some (Inl e)
                       | Some (Inr (calls', t2)) \<Rightarrow> Some (Inr (calls @ calls', t2))))
               else Some (Inr ([], thread))))"

definition generate_call_for_allocated ::
  "nat \<Rightarrow> vm \<Rightarrow> agent \<Rightarrow> nat \<Rightarrow> JavaThread \<Rightarrow> (vm_error + callback_call list \<times> JavaThread) option" where
  "generate_call_for_allocated fuel vm agent this thread =
     (case collectors thread this of
        None \<Rightarrow> Some (Inl Null_pointer_dereference)
      | Some col \<Rightarrow>
          (case allocated col of
             None \<Rightarrow> Some (Inr ([], thread))
           | Some xs \<Rightarrow>
               (case generate_loop fuel vm agent this 0 (set_enabled this False thread) of
                  None \<Rightarrow> None
                | Some (Inl e) \<Rightarrow> Some (Inl e)
                | Some (Inr (calls, t1)) \<Rightarrow>
                    Some (Inr (calls, update_collector this (\<lambda>c. c\<lparr> allocated := None \<rparr>) t1)))))"

definition JvmtiVMObjectAllocEventCollector_ctor :: "vm \<Rightarrow> nat \<Rightarrow> JavaThread \<Rightarrow> JavaThread" where
  "JvmtiVMObjectAllocEventCollector_ctor vm this thread0 =
     (let thread = construct VM_object_alloc_collector this thread0 in
      if should_post_vm_object_alloc vm then
        update_collector this (\<lambda>c. c\<lparr> post_callback := post_callback_vm_object_alloc \<rparr>)
          (setup_jvmti_thread_state this (set_enabled this True thread))
      else thread)"

definition JvmtiVMObjectAllocEventCollector_dtor ::
  "nat \<Rightarrow> vm \<Rightarrow> agent \<Rightarrow> nat \<Rightarrow> JavaThread \<Rightarrow> (vm_error + callback_call list \<times> JavaThread) option" where
  "JvmtiVMObjectAllocEventCollector_dtor fuel vm agent this thread =
     (case (if collector_enabled thread (Some this)
            then generate_call_for_allocated fuel vm agent this thread
            else Some (Inr ([], thread))) of
        None \<Rightarrow> None
      | Some (Inl e) \<Rightarrow> Some (Inl e)
      | Some (Inr (calls, t1)) \<Rightarrow> Some (Inr (calls, destroy this (unset_jvmti_thread_state this t1))))"

text \<open>
  The sampled collector: construction followed by \<^verbatim>\<open>start()\<close>; \<open>safe_to_sample\<close> is the
  result of \<^verbatim>\<open>object_alloc_is_safe_to_sample()\<close>, which asks the thread what kind it is.
\<close>

definition JvmtiSampledObjectAllocEventCollector_start :: "vm \<Rightarrow> bool \<Rightarrow> nat \<Rightarrow> JavaThread \<Rightarrow> JavaThread" where
  "JvmtiSampledObjectAllocEventCollector_start vm safe_to_sample this thread =
     (if should_post_sampled_object_alloc vm then
        (if \<not> safe_to_sample then thread
         else
           update_collector this (\<lambda>c. c\<lparr> post_callback := post_callback_sampled_object_alloc \<rparr>)
             (setup_jvmti_thread_state this (set_enabled this True thread)))
      else thread)"

definition JvmtiSampledObjectAllocEventCollector_ctor :: "vm \<Rightarrow> bool \<Rightarrow> nat \<Rightarrow> JavaThread \<Rightarrow> JavaThread" where
  "JvmtiSampledObjectAllocEventCollector_ctor vm safe_to_sample this thread =
     JvmtiSampledObjectAllocEventCollector_start vm safe_to_sample this
       (construct Sampled_object_alloc_collector this thread)"

definition JvmtiSampledObjectAllocEventCollector_dtor ::
  "nat \<Rightarrow> vm \<Rightarrow> agent \<Rightarrow> nat \<Rightarrow> JavaThread \<Rightarrow> (vm_error + callback_call list \<times> JavaThread) option" where
  "JvmtiSampledObjectAllocEventCollector_dtor fuel vm agent this thread =
     (if \<not> collector_enabled thread (Some this) then Some (Inr ([], destroy this thread))
      else
        case generate_call_for_allocated fuel vm agent this thread of
          None \<Rightarrow> None
        | Some (Inl e) \<Rightarrow> Some (Inl e)
        | Some (Inr (calls, t1)) \<Rightarrow> Some (Inr (calls, destroy this (unset_jvmti_thread_state this t1))))"

text \<open>The dynamic-code collector. None of the agent operations modelled registers a stub.\<close>

definition register_stub :: "nat \<Rightarrow> string \<Rightarrow> int \<Rightarrow> int \<Rightarrow> JavaThread \<Rightarrow> JavaThread" where
  "register_stub this name start end thread =
     update_collector this
       (\<lambda>c. c\<lparr> code_blobs :=
                 Some ((case code_blobs c of None \<Rightarrow> [] | Some blobs \<Rightarrow> blobs)
                       @ [\<lparr> blob_name = name, blob_code_begin = start, blob_code_end = end \<rparr>]) \<rparr>)
       thread"

definition post_dynamic_code_generated_while_holding_locks ::
  "string \<Rightarrow> int \<Rightarrow> int \<Rightarrow> JavaThread \<Rightarrow> JavaThread" where
  "post_dynamic_code_generated_while_holding_locks name code_begin code_end thread =
     (case get_jvmti_thread_state thread of
        None \<Rightarrow> thread
      | Some state \<Rightarrow>
          (case dynamic_code_event_collector state of
             None \<Rightarrow> thread
           | Some collector \<Rightarrow> register_stub collector name code_begin code_end thread))"

definition JvmtiDynamicCodeEventCollector_ctor :: "vm \<Rightarrow> nat \<Rightarrow> JavaThread \<Rightarrow> JavaThread" where
  "JvmtiDynamicCodeEventCollector_ctor vm this thread0 =
     (let thread = construct Dynamic_code_collector this thread0 in
      if should_post_dynamic_code_generated vm then setup_jvmti_thread_state this thread
      else thread)"

definition JvmtiDynamicCodeEventCollector_dtor ::
  "vm \<Rightarrow> agent \<Rightarrow> nat \<Rightarrow> JvmtiDeferredEvent list \<times> JavaThread \<Rightarrow>
   callback_call list \<times> JvmtiDeferredEvent list \<times> JavaThread" where
  "JvmtiDynamicCodeEventCollector_dtor vm agent this s =
     (case (case collectors (snd s) this of
              None \<Rightarrow> ([], s)
            | Some col \<Rightarrow>
                (case code_blobs col of
                   None \<Rightarrow> ([], s)
                 | Some blobs \<Rightarrow>
                     for_each
                       (\<lambda>blob s'. post_dynamic_code_generated vm agent
                                     (blob_name blob) (blob_code_begin blob) (blob_code_end blob) s')
                       blobs s)) of
        (calls, queue, t1) \<Rightarrow> (calls, queue, destroy this (unset_jvmti_thread_state this t1)))"

subsection \<open>Native method bind\<close>

text \<open>
  The first field of the arguments tells whether the \<^verbatim>\<open>JNIEnv*\<close> passed is null, which
  it is for an environment in the primordial phase.
\<close>

definition post_native_method_bind ::
  "vm \<Rightarrow> agent \<Rightarrow> JavaThread \<Rightarrow> Method \<Rightarrow> callback_call list \<times> JavaThread" where
  "post_native_method_bind vm agent thread method =
     (if should_hide_jvmti_events thread then ([], thread)
      else if EventController_is_enabled vm JVMTI_EVENT_NATIVE_METHOD_BIND then
        for_each
          (\<lambda>env t.
             if env_is_enabled env JVMTI_EVENT_NATIVE_METHOD_BIND then
               deliver agent (has_callback env JVMTI_EVENT_NATIVE_METHOD_BIND)
                 (Callback env JVMTI_EVENT_NATIVE_METHOD_BIND
                    (Native_method_arguments (env_phase env = JVMTI_PHASE_PRIMORDIAL)
                       (jmethod_id method))) t
             else ([], t))
          (env_list vm) thread
      else ([], thread))"

subsection \<open>Every posting function modelled, under one name\<close>



text \<open>The agent callbacks invoked by a call that may have failed.\<close>

fun calls_made :: "vm_error + callback_call list \<times> 's \<Rightarrow> callback_call list" where
  "calls_made (Inl e) = []"
| "calls_made (Inr (calls, s)) = calls"

text \<open>The environment list after a sequence of registrations, starting from none.\<close>

definition registered :: "JvmtiEnv list \<Rightarrow> JvmtiEnv list" where
  "registered new_envs = fold create_a_jvmti new_envs []"



text \<open>The environments of a thread's per-environment states, in the order they are iterated.\<close>

definition thread_envs :: "JavaThread \<Rightarrow> JvmtiEnv list" where
  "thread_envs thread =
     (case get_jvmti_thread_state thread of
        None \<Rightarrow> []
      | Some state \<Rightarrow> map ets_env (env_thread_states state))"

subsection \<open>Counting deliveries of the location-gated events\<close>

text \<open>Whether a post of a location-gated event runs its loop over the environments.\<close>

fun passes_guards :: "JavaThread \<Rightarrow> location_post \<Rightarrow> bool" where
  "passes_guards thread (Single_step method location) =
     (get_jvmti_thread_state thread \<noteq> None \<and> \<not> jvmti_mount_transition method
      \<and> \<not> should_hide_jvmti_events thread)"
| "passes_guards thread (Raw_breakpoint method location) =
     (get_jvmti_thread_state thread \<noteq> None \<and> \<not> should_hide_jvmti_events thread)"

text \<open>The posted flag of an event, and the per-environment states of a thread.\<close>

definition posted :: "jvmtiEvent \<Rightarrow> JvmtiEnvThreadState \<Rightarrow> bool" where
  "posted event ets =
     (if event = JVMTI_EVENT_SINGLE_STEP then single_stepping_posted ets
      else if event = JVMTI_EVENT_BREAKPOINT then breakpoint_posted ets
      else False)"

definition thread_etss :: "JavaThread \<Rightarrow> JvmtiEnvThreadState list" where
  "thread_etss thread =
     (case get_jvmti_thread_state thread of None \<Rightarrow> [] | Some state \<Rightarrow> env_thread_states state)"

text \<open>
  A per-environment state may still see a delivery of \<open>event\<close> at the location \<open>at\<close>:
  the event is enabled, there is a callback, and it was not already posted there.
\<close>

definition may_deliver :: "jvmtiEvent \<Rightarrow> nat \<times> int \<Rightarrow> JvmtiEnvThreadState \<Rightarrow> bool" where
  "may_deliver event at ets =
     (ets_is_enabled ets event \<and> has_callback (ets_env ets) event
      \<and> \<not> (current_location ets = Some at \<and> posted event ets))"

definition deliveries :: "JvmtiEnv \<Rightarrow> jvmtiEvent \<Rightarrow> callback_call list \<Rightarrow> nat" where
  "deliveries env event calls = length (filter (\<lambda>c. call_env c = env \<and> call_event c = event) calls)"

definition waiting :: "JvmtiEnv \<Rightarrow> jvmtiEvent \<Rightarrow> nat \<times> int \<Rightarrow> JvmtiEnvThreadState list \<Rightarrow> nat" where
  "waiting env event at etss =
     length (filter (\<lambda>ets. ets_env ets = env \<and> may_deliver event at ets) etss)"

text \<open>Two per-environment states of the same environment with the same events enabled.\<close>

definition same_subscription :: "JvmtiEnvThreadState \<Rightarrow> JvmtiEnvThreadState \<Rightarrow> bool" where
  "same_subscription a b = (ets_env b = ets_env a \<and> ets_is_enabled b = ets_is_enabled a)"




text \<open>
  A call goes to an environment that has left the primordial phase, or it is the
  class-file-load hook of an environment flagged for early class hooks.
\<close>

definition past_primordial :: "callback_call \<Rightarrow> bool" where
  "past_primordial c =
     (env_phase (call_env c) \<noteq> JVMTI_PHASE_PRIMORDIAL
      \<or> (call_event c = JVMTI_EVENT_CLASS_FILE_LOAD_HOOK \<and> early_class_hook_env (call_env c)))"


subsection \<open>Notions used in reasoning about collectors\<close>

text \<open>The pointer in the collector slot of a kind; null also when the thread has no state.\<close>

definition slot_of :: "collector_kind \<Rightarrow> JavaThread \<Rightarrow> nat option" where
  "slot_of k thread =
     (case jvmti_thread_state thread of
        None \<Rightarrow> None
      | Some state \<Rightarrow>
          (case k of
             VM_object_alloc_collector \<Rightarrow> vm_object_alloc_event_collector state
           | Dynamic_code_collector \<Rightarrow> dynamic_code_event_collector state
           | Sampled_object_alloc_collector \<Rightarrow> sampled_object_alloc_event_collector state))"

text \<open>
  A collector that no allocation can reach: it is disabled or absent, or neither
  allocation slot of the thread points to it.
\<close>

definition untouched :: "nat \<Rightarrow> JavaThread \<Rightarrow> bool" where
  "untouched a thread =
     (\<not> collector_enabled thread (Some a)
      \<or> (slot_of VM_object_alloc_collector thread \<noteq> Some a
          \<and> slot_of Sampled_object_alloc_collector thread \<noteq> Some a))"

text \<open>Two threads that differ at most in their collector objects.\<close>

definition same_rest :: "JavaThread \<Rightarrow> JavaThread \<Rightarrow> bool" where
  "same_rest t t' =
     (jvmti_thread_state t' = jvmti_thread_state t
      \<and> should_hide_jvmti_events t' = should_hide_jvmti_events t
      \<and> is_service_thread t' = is_service_thread t
      \<and> is_hidden_from_external_view t' = is_hidden_from_external_view t
      \<and> is_BoundVirtualThread t' = is_BoundVirtualThread t
      \<and> jni_handle_blocks t' = jni_handle_blocks t
      \<and> osthread_state t' = osthread_state t)"

text \<open>
  What a posting loop preserves: the thread apart from its collectors, and every collector
  of a set that was out of reach when the loop began.
\<close>

definition settled :: "nat set \<Rightarrow> JavaThread \<Rightarrow> JavaThread \<Rightarrow> bool" where
  "settled A t t' = (same_rest t t' \<and> (\<forall>a\<in>A. collectors t' a = collectors t a))"

text \<open>The array \<^verbatim>\<open>_allocated\<close> after further records have been pushed.\<close>

definition append_records :: "oopDesc list option \<Rightarrow> oopDesc list \<Rightarrow> oopDesc list option" where
  "append_records arr objs =
     (if objs = [] then arr else Some ((case arr of None \<Rightarrow> [] | Some xs \<Rightarrow> xs) @ objs))"

text \<open>The records of an array pointer, none for the null pointer.\<close>

definition records_of :: "oopDesc list option \<Rightarrow> oopDesc list" where
  "records_of arr = (case arr of None \<Rightarrow> [] | Some xs \<Rightarrow> xs)"

text \<open>
  The agent calls made by posting each of the records in order through a collector's
  \<^verbatim>\<open>_post_callback\<close>.
\<close>

definition posted_in_order ::
  "post_callback_fn \<Rightarrow> vm \<Rightarrow> agent \<Rightarrow> JavaThread \<Rightarrow> oopDesc list \<Rightarrow> callback_call list" where
  "posted_in_order f vm agent thread objs =
     concat (map (\<lambda>obj. calls_made (call_post_callback f vm agent thread obj)) objs)"

section \<open>Example configurations\<close>

definition env_A :: JvmtiEnv where
  "env_A = \<lparr> env_id = 1, env_phase = JVMTI_PHASE_LIVE, is_retransformable = True,
             early_class_hook_env = False, early_vmstart_env = False,
             env_is_enabled = (\<lambda>e. True), has_callback = (\<lambda>e. True) \<rparr>"

definition env_B :: JvmtiEnv where
  "env_B = \<lparr> env_id = 2, env_phase = JVMTI_PHASE_LIVE, is_retransformable = False,
             early_class_hook_env = False, early_vmstart_env = False,
             env_is_enabled = (\<lambda>e. True), has_callback = (\<lambda>e. True) \<rparr>"

definition env_P :: JvmtiEnv where
  "env_P = \<lparr> env_id = 3, env_phase = JVMTI_PHASE_PRIMORDIAL, is_retransformable = False,
             early_class_hook_env = False, early_vmstart_env = False,
             env_is_enabled = (\<lambda>e. True), has_callback = (\<lambda>e. True) \<rparr>"

definition vm_live :: vm where
  "vm_live = \<lparr> phase_value = jvmti_h_phase_value, get_phase = JVMTI_PHASE_LIVE,
               env_list = registered [env_A, env_B],
               EventController_is_enabled = (\<lambda>e. True), can_support_virtual_threads = True,
               should_post_vm_object_alloc = True, should_post_sampled_object_alloc = True,
               should_post_dynamic_code_generated = True \<rparr>"

definition vm_primordial :: vm where
  "vm_primordial = vm_live\<lparr> get_phase := JVMTI_PHASE_PRIMORDIAL, env_list := registered [env_P] \<rparr>"

definition vm_onload :: vm where
  "vm_onload = vm_live\<lparr> get_phase := JVMTI_PHASE_ONLOAD \<rparr>"

definition ets_of :: "JvmtiEnv \<Rightarrow> JvmtiEnvThreadState" where
  "ets_of env = \<lparr> ets_env = env, ets_is_enabled = (\<lambda>e. True), current_location = None,
                  breakpoint_posted = False, single_stepping_posted = False \<rparr>"

definition state_AB :: JvmtiThreadState where
  "state_AB = new_JvmtiThreadState\<lparr> env_thread_states := [ets_of env_A, ets_of env_B],
                                     state_is_enabled := (\<lambda>e. True) \<rparr>"

definition thread_AB :: JavaThread where
  "thread_AB = \<lparr> jvmti_thread_state = Some state_AB, should_hide_jvmti_events = False,
                 is_service_thread = False, is_hidden_from_external_view = False,
                 is_BoundVirtualThread = False, jni_handle_blocks = 0,
                 osthread_state = Other_ThreadState 0, collectors = Map.empty \<rparr>"

definition method_m :: Method where
  "method_m = \<lparr> jmethod_id = 7, code_base = 100, jvmti_mount_transition = False \<rparr>"


definition oop_x :: oopDesc where
  "oop_x = \<lparr> oop_address = 4096, klass_is_Class_klass = False \<rparr>"

definition oop_y :: oopDesc where
  "oop_y = \<lparr> oop_address = 8192, klass_is_Class_klass = False \<rparr>"

text \<open>An agent that does nothing in its callbacks and never replaces class data.\<close>

definition quiet_agent :: agent where
  "quiet_agent call = []"


text \<open>
  An agent that allocates in each of its callbacks, once on the path of VM-internal
  allocations and once on the sampled path.
\<close>

definition allocating_agent :: agent where
  "allocating_agent call = [Allocate_in_VM oop_y, Allocate_sampled oop_y]"

text \<open>A thread whose VM-allocation slot holds an enabled collector with two records.\<close>

definition collector_xy :: JvmtiEventCollector where
  "collector_xy =
     \<lparr> kind = VM_object_alloc_collector, prev = None, unset_jvmti_thread_state_flag = True,
       code_blobs = None, allocated = Some [oop_x, oop_y], enable = True,
       post_callback = post_callback_vm_object_alloc \<rparr>"

definition thread_collecting :: JavaThread where
  "thread_collecting =
     thread_AB\<lparr> jvmti_thread_state := Some (state_AB\<lparr> vm_object_alloc_event_collector := Some 1 \<rparr>),
                collectors := [1 \<mapsto> collector_xy] \<rparr>"

section \<open>Theorems\<close>

subsection \<open>Loops and deliveries\<close>

lemma registered_eq: "registered new_envs = new_envs"
proof -
  have "fold create_a_jvmti xs acc = acc @ xs" for xs acc
    by (induction xs arbitrary: acc) (simp_all add: create_a_jvmti_def)
  then show ?thesis by (simp add: registered_def)
qed

lemma update_state_same:
  "(\<And>state. jvmti_thread_state thread = Some state \<Longrightarrow> f state = state) \<Longrightarrow> update_state f thread = thread"
  by (cases "jvmti_thread_state thread") (simp_all add: update_state_def)

lemma deliver_calls: "fst (deliver agent b call thread) = (if b then [call] else [])"
  by (simp add: deliver_def with_JvmtiEventMark_def JvmtiEventMark_ctor_def invoke_callback_def
      split: prod.splits)

lemma for_each_calls:
  assumes "\<And>e s. fst (body e s) = g e"
  shows "fst (for_each body es s) = concat (map g es)"
proof (induction es arbitrary: s)
  case Nil
  show ?case by simp
next
  case (Cons e es)
  have "fst (body e s) = g e" by (rule assms)
  moreover have "fst (for_each body es (snd (body e s))) = concat (map g es)" by (rule Cons.IH)
  ultimately show ?case by (simp split: prod.splits) (metis fst_conv snd_conv)
qed

lemma for_each_all:
  assumes "\<And>e s c. c \<in> set (fst (body e s)) \<Longrightarrow> P c"
  shows "c \<in> set (fst (for_each body es s)) \<Longrightarrow> P c"
proof (induction es arbitrary: s)
  case Nil
  then show ?case by simp
next
  case (Cons e es)
  obtain calls t1 where b: "body e s = (calls, t1)" by (cases "body e s")
  obtain calls' t2 where r: "for_each body es t1 = (calls', t2)" by (cases "for_each body es t1")
  from Cons.prems b r have "c \<in> set calls \<or> c \<in> set calls'" by simp
  then show ?case
  proof
    assume "c \<in> set calls"
    with b have "c \<in> set (fst (body e s))" by simp
    then show ?thesis by (rule assms)
  next
    assume "c \<in> set calls'"
    with r have "c \<in> set (fst (for_each body es t1))" by simp
    then show ?thesis by (rule Cons.IH)
  qed
qed


subsection \<open>Registration outside the ONLOAD and LIVE phases\<close>






lemma concat_map_if:
  "concat (map (\<lambda>x. if P x then [h x] else []) xs) = map h (filter P xs)"
  by (induction xs) simp_all


subsection \<open>Order of the environments called\<close>

lemma post_vm_object_alloc_calls:
  "fst (post_vm_object_alloc vm agent thread object) =
     (case object of
        None \<Rightarrow> []
      | Some obj \<Rightarrow>
          if should_hide_jvmti_events thread then []
          else map (\<lambda>env. Callback env JVMTI_EVENT_VM_OBJECT_ALLOC (Object_arguments obj))
                 (filter (\<lambda>env. env_is_enabled env JVMTI_EVENT_VM_OBJECT_ALLOC
                               \<and> has_callback env JVMTI_EVENT_VM_OBJECT_ALLOC) (env_list vm)))"
proof -
  have "fst (for_each
              (\<lambda>env t.
                 if env_is_enabled env JVMTI_EVENT_VM_OBJECT_ALLOC then
                   deliver agent (has_callback env JVMTI_EVENT_VM_OBJECT_ALLOC)
                     (Callback env JVMTI_EVENT_VM_OBJECT_ALLOC (Object_arguments obj)) t
                 else ([], t))
              envs thread)
        = concat (map (\<lambda>env. if env_is_enabled env JVMTI_EVENT_VM_OBJECT_ALLOC
                               \<and> has_callback env JVMTI_EVENT_VM_OBJECT_ALLOC
                             then [Callback env JVMTI_EVENT_VM_OBJECT_ALLOC (Object_arguments obj)] else []) envs)"
    for obj envs
    by (rule for_each_calls) (simp add: deliver_calls)
  then show ?thesis
    by (simp add: post_vm_object_alloc_def concat_map_if split: option.splits)
qed






















subsection \<open>What a delivery leaves unchanged\<close>

lemma record_allocation_frame:
  "jvmti_thread_state (record_allocation c obj t) = jvmti_thread_state t"
  "should_hide_jvmti_events (record_allocation c obj t) = should_hide_jvmti_events t"
  "is_service_thread (record_allocation c obj t) = is_service_thread t"
  "is_hidden_from_external_view (record_allocation c obj t) = is_hidden_from_external_view t"
  "is_BoundVirtualThread (record_allocation c obj t) = is_BoundVirtualThread t"
  "jni_handle_blocks (record_allocation c obj t) = jni_handle_blocks t"
  "osthread_state (record_allocation c obj t) = osthread_state t"
  by (simp_all add: record_allocation_def split: option.splits)

lemma update_state_frame:
  "should_hide_jvmti_events (update_state f t) = should_hide_jvmti_events t"
  "is_service_thread (update_state f t) = is_service_thread t"
  "is_hidden_from_external_view (update_state f t) = is_hidden_from_external_view t"
  "is_BoundVirtualThread (update_state f t) = is_BoundVirtualThread t"
  "jni_handle_blocks (update_state f t) = jni_handle_blocks t"
  "osthread_state (update_state f t) = osthread_state t"
  "collectors (update_state f t) = collectors t"
  "jvmti_thread_state (update_state f t) = map_option f (jvmti_thread_state t)"
  by (simp_all add: update_state_def split: option.splits)

text \<open>
  An agent operation changes the thread's JVMTI state in its exception-reporting state
  only: overwriting that field afterwards hides the change.
\<close>

lemma exec_agent_op_frame:
  "should_hide_jvmti_events (exec_agent_op op t) = should_hide_jvmti_events t"
  "is_service_thread (exec_agent_op op t) = is_service_thread t"
  "is_hidden_from_external_view (exec_agent_op op t) = is_hidden_from_external_view t"
  "is_BoundVirtualThread (exec_agent_op op t) = is_BoundVirtualThread t"
  "jni_handle_blocks (exec_agent_op op t) = jni_handle_blocks t"
  "osthread_state (exec_agent_op op t) = osthread_state t"
  "map_option (exception_state_update (\<lambda>_. x)) (jvmti_thread_state (exec_agent_op op t))
     = map_option (exception_state_update (\<lambda>_. x)) (jvmti_thread_state t)"
  by (cases op; simp add: record_vm_internal_object_allocation_def
        record_sampled_internal_object_allocation_def record_allocation_frame update_state_frame
        clear_detected_exception_def set_exception_detected_def set_exception_caught_def
        clear_exception_state_def option.map_comp comp_def
      split: option.splits)+

lemma agent_ops_frame:
  "should_hide_jvmti_events (fold exec_agent_op ops t) = should_hide_jvmti_events t"
  "is_service_thread (fold exec_agent_op ops t) = is_service_thread t"
  "is_hidden_from_external_view (fold exec_agent_op ops t) = is_hidden_from_external_view t"
  "is_BoundVirtualThread (fold exec_agent_op ops t) = is_BoundVirtualThread t"
  "jni_handle_blocks (fold exec_agent_op ops t) = jni_handle_blocks t"
  "osthread_state (fold exec_agent_op ops t) = osthread_state t"
  "map_option (exception_state_update (\<lambda>_. x)) (jvmti_thread_state (fold exec_agent_op ops t))
     = map_option (exception_state_update (\<lambda>_. x)) (jvmti_thread_state t)"
  by (induction ops arbitrary: t; simp add: exec_agent_op_frame)+

lemma deliver_thread:
  "snd (deliver agent b call t) =
     JvmtiEventMark_dtor (fst (JvmtiEventMark_ctor t))
       (if b then fold exec_agent_op (agent call) (snd (JvmtiEventMark_ctor t))
        else snd (JvmtiEventMark_ctor t))"
  by (simp add: deliver_def with_JvmtiEventMark_def invoke_callback_def case_prod_beta)

lemma restore_exception_state:
  assumes "map_option (exception_state_update (\<lambda>_. exception_state s)) st' = Some s"
  shows "map_option (\<lambda>state. state\<lparr> exception_state := exception_state s \<rparr>) st' = Some s"
  using assms by (cases st') simp_all

lemma deliver_state:
  "jvmti_thread_state (snd (deliver agent b call t)) = jvmti_thread_state t"
proof (cases "jvmti_thread_state t")
  case None
  have "map_option (exception_state_update (\<lambda>_. ES_CLEARED))
          (jvmti_thread_state (fold exec_agent_op ops (snd (JvmtiEventMark_ctor t)))) = None" for ops
    using None by (simp add: agent_ops_frame JvmtiEventMark_ctor_def)
  then have "jvmti_thread_state (fold exec_agent_op ops (snd (JvmtiEventMark_ctor t))) = None" for ops
    by simp
  with None show ?thesis
    by (simp add: deliver_thread JvmtiEventMark_dtor_def update_state_frame JvmtiEventMark_ctor_def)
next
  case (Some s)
  have "map_option (exception_state_update (\<lambda>_. exception_state s))
          (jvmti_thread_state (fold exec_agent_op ops (snd (JvmtiEventMark_ctor t)))) = Some s" for ops
    using Some by (simp add: agent_ops_frame JvmtiEventMark_ctor_def)
  then have "map_option (\<lambda>state. state\<lparr> exception_state := exception_state s \<rparr>)
          (jvmti_thread_state (fold exec_agent_op ops (snd (JvmtiEventMark_ctor t)))) = Some s" for ops
    by (rule restore_exception_state)
  with Some show ?thesis
    by (simp add: deliver_thread JvmtiEventMark_dtor_def update_state_frame JvmtiEventMark_ctor_def)
qed

lemma deliver_frame:
  "should_hide_jvmti_events (snd (deliver agent b call t)) = should_hide_jvmti_events t"
  "is_service_thread (snd (deliver agent b call t)) = is_service_thread t"
  "is_hidden_from_external_view (snd (deliver agent b call t)) = is_hidden_from_external_view t"
  "is_BoundVirtualThread (snd (deliver agent b call t)) = is_BoundVirtualThread t"
  "jni_handle_blocks (snd (deliver agent b call t)) = jni_handle_blocks t"
  "osthread_state (snd (deliver agent b call t)) = osthread_state t"
  by (simp_all add: deliver_thread JvmtiEventMark_dtor_def JvmtiEventMark_ctor_def
        update_state_frame agent_ops_frame)

subsection \<open>The loops of the location-gated events\<close>

lemma single_step_loop_frame:
  "jvmti_thread_state (snd (snd (single_step_loop agent m l etss t))) = jvmti_thread_state t
   \<and> should_hide_jvmti_events (snd (snd (single_step_loop agent m l etss t))) = should_hide_jvmti_events t"
  by (induction etss arbitrary: t)
     (simp_all add: Let_def case_prod_beta deliver_state deliver_frame)

lemma breakpoint_loop_frame:
  "jvmti_thread_state (snd (snd (breakpoint_loop agent m l etss t))) = jvmti_thread_state t
   \<and> should_hide_jvmti_events (snd (snd (breakpoint_loop agent m l etss t))) = should_hide_jvmti_events t"
  by (induction etss arbitrary: t)
     (simp_all add: Let_def case_prod_beta deliver_state deliver_frame)

lemma deliveries_append:
  "deliveries env event (xs @ ys) = deliveries env event xs + deliveries env event ys"
  by (simp add: deliveries_def)

lemma deliveries_Nil: "deliveries env event [] = 0"
  by (simp add: deliveries_def)

lemma waiting_Cons:
  "waiting env event at (ets # etss) =
     (if ets_env ets = env \<and> may_deliver event at ets then 1 else 0) + waiting env event at etss"
  by (simp add: waiting_def)

lemma waiting_Nil: "waiting env event at [] = 0"
  by (simp add: waiting_def)

text \<open>One round of either loop, seen from one environment and one event.\<close>

lemma single_step_round:
  assumes "ets = compare_and_set_current_location m l JVMTI_EVENT_SINGLE_STEP ets0"
      and "at = (jmethod_id m, l - code_base m)"
  shows "(if \<not> single_stepping_posted ets \<and> ets_is_enabled ets JVMTI_EVENT_SINGLE_STEP
          then deliveries env event
                 (if has_callback (ets_env ets) JVMTI_EVENT_SINGLE_STEP
                  then [Callback (ets_env ets) JVMTI_EVENT_SINGLE_STEP args] else [])
               + (if ets_env (ets\<lparr> single_stepping_posted := True \<rparr>) = env
                     \<and> may_deliver event at (ets\<lparr> single_stepping_posted := True \<rparr>) then 1 else 0)
          else (if ets_env ets = env \<and> may_deliver event at ets then 1 else 0))
         \<le> (if ets_env ets0 = env \<and> may_deliver event at ets0 then (1::nat) else 0)"
  using assms
  by (auto simp add: compare_and_set_current_location_def may_deliver_def posted_def deliveries_def
      split: if_splits)

lemma breakpoint_round:
  assumes "ets = compare_and_set_current_location m l JVMTI_EVENT_BREAKPOINT ets0"
      and "at = (jmethod_id m, l - code_base m)"
  shows "(if \<not> breakpoint_posted ets \<and> ets_is_enabled ets JVMTI_EVENT_BREAKPOINT
          then deliveries env event
                 (if has_callback (ets_env ets) JVMTI_EVENT_BREAKPOINT
                  then [Callback (ets_env ets) JVMTI_EVENT_BREAKPOINT args] else [])
               + (if ets_env (ets\<lparr> breakpoint_posted := True \<rparr>) = env
                     \<and> may_deliver event at (ets\<lparr> breakpoint_posted := True \<rparr>) then 1 else 0)
          else (if ets_env ets = env \<and> may_deliver event at ets then 1 else 0))
         \<le> (if ets_env ets0 = env \<and> may_deliver event at ets0 then (1::nat) else 0)"
  using assms
  by (auto simp add: compare_and_set_current_location_def may_deliver_def posted_def deliveries_def
      split: if_splits)

lemma single_step_loop_counts:
  "deliveries env event (fst (single_step_loop agent m l etss t))
     + waiting env event (jmethod_id m, l - code_base m) (fst (snd (single_step_loop agent m l etss t)))
   \<le> waiting env event (jmethod_id m, l - code_base m) etss"
proof (induction etss arbitrary: t)
  case Nil
  show ?case by (simp add: deliveries_Nil waiting_Nil)
next
  case (Cons ets0 etss)
  define ets where "ets = compare_and_set_current_location m l JVMTI_EVENT_SINGLE_STEP ets0"
  define at where "at = (jmethod_id m, l - code_base m)"
  note round = single_step_round [OF ets_def at_def, of env event
      "Location_arguments (jmethod_id m) (l - code_base m)"]
  show ?case
  proof (cases "\<not> single_stepping_posted ets \<and> ets_is_enabled ets JVMTI_EVENT_SINGLE_STEP")
    case True
    define t1 where "t1 = snd (deliver agent (has_callback (ets_env ets) JVMTI_EVENT_SINGLE_STEP)
                (Callback (ets_env ets) JVMTI_EVENT_SINGLE_STEP
                   (Location_arguments (jmethod_id m) (l - code_base m))) t)"
    have ih: "deliveries env event (fst (single_step_loop agent m l etss t1))
       + waiting env event at (fst (snd (single_step_loop agent m l etss t1)))
        \<le> waiting env event at etss"
      using Cons.IH [of t1] by (simp add: at_def)
    have "single_step_loop agent m l (ets0 # etss) t =
       ((if has_callback (ets_env ets) JVMTI_EVENT_SINGLE_STEP
           then [Callback (ets_env ets) JVMTI_EVENT_SINGLE_STEP
                   (Location_arguments (jmethod_id m) (l - code_base m))] else [])
          @ fst (single_step_loop agent m l etss t1),
        ets\<lparr> single_stepping_posted := True \<rparr> # fst (snd (single_step_loop agent m l etss t1)),
        snd (snd (single_step_loop agent m l etss t1)))"
      using True by (simp add: ets_def [symmetric] t1_def case_prod_beta deliver_calls Let_def)
    with round ih True show ?thesis
      by (simp add: deliveries_append waiting_Cons at_def [symmetric])
  next
    case False
    have ih: "deliveries env event (fst (single_step_loop agent m l etss t))
       + waiting env event at (fst (snd (single_step_loop agent m l etss t)))
        \<le> waiting env event at etss"
      using Cons.IH [of t] by (simp add: at_def)
    have "single_step_loop agent m l (ets0 # etss) t =
       (fst (single_step_loop agent m l etss t),
        ets # fst (snd (single_step_loop agent m l etss t)),
        snd (snd (single_step_loop agent m l etss t)))"
      using False by (auto simp add: ets_def [symmetric] case_prod_beta Let_def)
    with round ih False show ?thesis
      by (simp add: waiting_Cons at_def [symmetric])
  qed
qed

lemma breakpoint_loop_counts:
  "deliveries env event (fst (breakpoint_loop agent m l etss t))
     + waiting env event (jmethod_id m, l - code_base m) (fst (snd (breakpoint_loop agent m l etss t)))
   \<le> waiting env event (jmethod_id m, l - code_base m) etss"
proof (induction etss arbitrary: t)
  case Nil
  show ?case by (simp add: deliveries_Nil waiting_Nil)
next
  case (Cons ets0 etss)
  define ets where "ets = compare_and_set_current_location m l JVMTI_EVENT_BREAKPOINT ets0"
  define at where "at = (jmethod_id m, l - code_base m)"
  note round = breakpoint_round [OF ets_def at_def, of env event
      "Location_arguments (jmethod_id m) (l - code_base m)"]
  show ?case
  proof (cases "\<not> breakpoint_posted ets \<and> ets_is_enabled ets JVMTI_EVENT_BREAKPOINT")
    case True
    define t1 where "t1 = (snd (deliver agent (has_callback (ets_env ets) JVMTI_EVENT_BREAKPOINT)
                (Callback (ets_env ets) JVMTI_EVENT_BREAKPOINT
                   (Location_arguments (jmethod_id m) (l - code_base m)))
                (t\<lparr> osthread_state := BREAKPOINTED \<rparr>)))\<lparr> osthread_state := osthread_state t \<rparr>"
    have ih: "deliveries env event (fst (breakpoint_loop agent m l etss t1))
       + waiting env event at (fst (snd (breakpoint_loop agent m l etss t1)))
        \<le> waiting env event at etss"
      using Cons.IH [of t1] by (simp add: at_def)
    have "breakpoint_loop agent m l (ets0 # etss) t =
       ((if has_callback (ets_env ets) JVMTI_EVENT_BREAKPOINT
           then [Callback (ets_env ets) JVMTI_EVENT_BREAKPOINT
                   (Location_arguments (jmethod_id m) (l - code_base m))] else [])
          @ fst (breakpoint_loop agent m l etss t1),
        ets\<lparr> breakpoint_posted := True \<rparr> # fst (snd (breakpoint_loop agent m l etss t1)),
        snd (snd (breakpoint_loop agent m l etss t1)))"
      using True by (simp add: ets_def [symmetric] t1_def case_prod_beta deliver_calls Let_def)
    with round ih True show ?thesis
      by (simp add: deliveries_append waiting_Cons at_def [symmetric])
  next
    case False
    have ih: "deliveries env event (fst (breakpoint_loop agent m l etss t))
       + waiting env event at (fst (snd (breakpoint_loop agent m l etss t)))
        \<le> waiting env event at etss"
      using Cons.IH [of t] by (simp add: at_def)
    have "breakpoint_loop agent m l (ets0 # etss) t =
       (fst (breakpoint_loop agent m l etss t),
        ets # fst (snd (breakpoint_loop agent m l etss t)),
        snd (snd (breakpoint_loop agent m l etss t)))"
      using False by (auto simp add: ets_def [symmetric] case_prod_beta Let_def)
    with round ih False show ?thesis
      by (simp add: waiting_Cons at_def [symmetric])
  qed
qed

lemma location_post_call_skipped:
  "\<not> passes_guards t p \<Longrightarrow> location_post_call agent t p = ([], t)"
  by (cases p) (auto simp add: post_single_step_def post_raw_breakpoint_def split: option.splits)

lemma location_post_call_calls:
  "passes_guards t p \<Longrightarrow>
   fst (location_post_call agent t p) =
     (case p of
        Single_step m l \<Rightarrow> fst (single_step_loop agent m l (thread_etss t) t)
      | Raw_breakpoint m l \<Rightarrow> fst (breakpoint_loop agent m l (thread_etss t) t))"
  by (cases p)
     (auto simp add: post_single_step_def post_raw_breakpoint_def thread_etss_def case_prod_beta
       split: option.splits)

lemma location_post_call_etss:
  "passes_guards t p \<Longrightarrow>
   thread_etss (snd (location_post_call agent t p)) =
     (case p of
        Single_step m l \<Rightarrow> fst (snd (single_step_loop agent m l (thread_etss t) t))
      | Raw_breakpoint m l \<Rightarrow> fst (snd (breakpoint_loop agent m l (thread_etss t) t)))"
  by (cases p)
     (auto simp add: post_single_step_def post_raw_breakpoint_def thread_etss_def case_prod_beta
       get_jvmti_thread_state_def update_state_frame single_step_loop_frame breakpoint_loop_frame
       split: option.splits)

lemma location_post_call_counts:
  "deliveries env event (fst (location_post_call agent t p))
     + waiting env event (location_post_at p) (thread_etss (snd (location_post_call agent t p)))
   \<le> waiting env event (location_post_at p) (thread_etss t)"
proof (cases "passes_guards t p")
  case False
  then show ?thesis by (simp add: location_post_call_skipped deliveries_Nil)
next
  case True
  show ?thesis
  proof (cases p)
    case (Single_step m l)
    with location_post_call_calls [OF True, of agent] location_post_call_etss [OF True, of agent]
      single_step_loop_counts [of env event agent m l "thread_etss t" t]
    show ?thesis by simp
  next
    case (Raw_breakpoint m l)
    with location_post_call_calls [OF True, of agent] location_post_call_etss [OF True, of agent]
      breakpoint_loop_counts [of env event agent m l "thread_etss t" t]
    show ?thesis by simp
  qed
qed

lemma location_posts_counts:
  assumes "\<forall>p\<in>set posts. location_post_at p = at"
  shows "deliveries env event (fst (location_posts agent posts t))
           + waiting env event at (thread_etss (snd (location_posts agent posts t)))
         \<le> waiting env event at (thread_etss t)"
  using assms
proof (induction posts arbitrary: t)
  case Nil
  show ?case by (simp add: location_posts_def deliveries_Nil)
next
  case (Cons p posts)
  define t1 where "t1 = snd (location_post_call agent t p)"
  have at: "location_post_at p = at" using Cons.prems by simp
  have step: "deliveries env event (fst (location_post_call agent t p))
     + waiting env event at (thread_etss t1) \<le> waiting env event at (thread_etss t)"
    using location_post_call_counts [of env event agent t p] at by (simp add: t1_def)
  have rest: "deliveries env event (fst (location_posts agent posts t1))
           + waiting env event at (thread_etss (snd (location_posts agent posts t1)))
         \<le> waiting env event at (thread_etss t1)"
    using Cons.IH [of t1] Cons.prems by simp
  have "location_posts agent (p # posts) t =
      (fst (location_post_call agent t p) @ fst (location_posts agent posts t1),
       snd (location_posts agent posts t1))"
    by (simp add: location_posts_def t1_def case_prod_beta)
  with step rest show ?case by (simp add: deliveries_append)
qed

lemma waiting_le_one:
  assumes "distinct (map ets_env etss)"
  shows "waiting env event at etss \<le> 1"
proof -
  have "waiting env event at etss \<le> length (filter (\<lambda>e. e = env) (map ets_env etss))"
    by (induction etss) (simp_all add: waiting_def)
  also have "\<dots> \<le> 1"
  proof -
    have "distinct xs \<Longrightarrow> length (filter (\<lambda>e. e = env) xs) \<le> 1" for xs :: "JvmtiEnv list"
      by (induction xs) (auto simp add: filter_empty_conv)
    then show ?thesis using assms by blast
  qed
  finally show ?thesis .
qed

lemma thread_envs_etss: "thread_envs t = map ets_env (thread_etss t)"
  by (simp add: thread_envs_def thread_etss_def split: option.splits)

subsection \<open>Re-arming by a change of location\<close>

lemma single_step_loop_moves:
  "list_all2 (\<lambda>a b. same_subscription a b \<and> current_location b = Some (jmethod_id m, l - code_base m))
     etss (fst (snd (single_step_loop agent m l etss t)))"
  by (induction etss arbitrary: t)
     (simp_all add: Let_def case_prod_beta compare_and_set_current_location_def same_subscription_def)

lemma breakpoint_loop_moves:
  "list_all2 (\<lambda>a b. same_subscription a b \<and> current_location b = Some (jmethod_id m, l - code_base m))
     etss (fst (snd (breakpoint_loop agent m l etss t)))"
  by (induction etss arbitrary: t)
     (simp_all add: Let_def case_prod_beta compare_and_set_current_location_def same_subscription_def)

lemma location_post_call_moves:
  "passes_guards t p \<Longrightarrow>
   list_all2 (\<lambda>a b. same_subscription a b \<and> current_location b = Some (location_post_at p))
     (thread_etss t) (thread_etss (snd (location_post_call agent t p)))"
  using location_post_call_etss [of t p agent]
  by (cases p) (simp_all add: single_step_loop_moves breakpoint_loop_moves)

lemma single_step_loop_fresh:
  assumes "\<forall>ets\<in>set etss. current_location ets \<noteq> Some (jmethod_id m, l - code_base m)"
  shows "fst (single_step_loop agent m l etss t) =
     map (\<lambda>ets. Callback (ets_env ets) JVMTI_EVENT_SINGLE_STEP
                  (Location_arguments (jmethod_id m) (l - code_base m)))
       (filter (\<lambda>ets. ets_is_enabled ets JVMTI_EVENT_SINGLE_STEP
                     \<and> has_callback (ets_env ets) JVMTI_EVENT_SINGLE_STEP) etss)"
  using assms
  by (induction etss arbitrary: t)
     (simp_all add: Let_def case_prod_beta compare_and_set_current_location_def deliver_calls)

lemma breakpoint_loop_fresh:
  assumes "\<forall>ets\<in>set etss. current_location ets \<noteq> Some (jmethod_id m, l - code_base m)"
  shows "fst (breakpoint_loop agent m l etss t) =
     map (\<lambda>ets. Callback (ets_env ets) JVMTI_EVENT_BREAKPOINT
                  (Location_arguments (jmethod_id m) (l - code_base m)))
       (filter (\<lambda>ets. ets_is_enabled ets JVMTI_EVENT_BREAKPOINT
                     \<and> has_callback (ets_env ets) JVMTI_EVENT_BREAKPOINT) etss)"
  using assms
  by (induction etss arbitrary: t)
     (simp_all add: Let_def case_prod_beta compare_and_set_current_location_def deliver_calls)

lemma location_post_call_fresh:
  assumes "passes_guards t p"
      and "\<forall>ets\<in>set (thread_etss t). current_location ets \<noteq> Some (location_post_at p)"
  shows "fst (location_post_call agent t p) =
     map (\<lambda>ets. Callback (ets_env ets) (location_post_event p)
                  (Location_arguments (fst (location_post_at p)) (snd (location_post_at p))))
       (filter (\<lambda>ets. ets_is_enabled ets (location_post_event p)
                     \<and> has_callback (ets_env ets) (location_post_event p)) (thread_etss t))"
  using assms location_post_call_calls [of t p agent]
  by (cases p) (simp_all add: single_step_loop_fresh breakpoint_loop_fresh)

lemma same_subscription_calls:
  assumes "list_all2 (\<lambda>a b. same_subscription a b \<and> Q b) xs ys"
  shows "map (\<lambda>ets. Callback (ets_env ets) event args)
           (filter (\<lambda>ets. ets_is_enabled ets event \<and> has_callback (ets_env ets) event) ys)
       = map (\<lambda>ets. Callback (ets_env ets) event args)
           (filter (\<lambda>ets. ets_is_enabled ets event \<and> has_callback (ets_env ets) event) xs)"
  using assms by (induction rule: list_all2_induct) (simp_all add: same_subscription_def)

lemma passes_guards_after:
  "passes_guards (snd (location_post_call agent t p')) p = passes_guards t p"
proof (cases "passes_guards t p'")
  case False
  then show ?thesis by (simp add: location_post_call_skipped)
next
  case True
  then have "jvmti_thread_state (snd (location_post_call agent t p')) \<noteq> None
     \<and> should_hide_jvmti_events (snd (location_post_call agent t p')) = should_hide_jvmti_events t"
    by (cases p')
       (auto simp add: post_single_step_def post_raw_breakpoint_def case_prod_beta
          get_jvmti_thread_state_def update_state_frame single_step_loop_frame breakpoint_loop_frame
        split: option.splits)
  with True show ?thesis
    by (cases p; cases p') (auto simp add: get_jvmti_thread_state_def)
qed

subsection \<open>Location-gated events are delivered once per location\<close>

text \<open>
  C2. On a thread whose per-environment states belong to distinct environments, any
  sequence of single-step and breakpoint posts at one method and location delivers each of
  the two events at most once to an environment; and, whatever was posted before, after a
  post at another location that ran its loop the next post at the location delivers the
  event to every environment that has it enabled for the thread and has a callback.
  The comparison with the current location is modelled from the spec.
\<close>

theorem location_gated_events_delivered_once:
  assumes "distinct (thread_envs thread)"
  shows "((\<forall>p\<in>set posts. location_post_at p = at) \<longrightarrow>
            deliveries env event (fst (location_posts agent posts thread)) \<le> 1)
       \<and> (passes_guards thread p' \<and> passes_guards thread p
            \<and> location_post_at p' \<noteq> location_post_at p \<longrightarrow>
            fst (location_post_call agent (snd (location_post_call agent thread p')) p) =
              map (\<lambda>ets. Callback (ets_env ets) (location_post_event p)
                           (Location_arguments (fst (location_post_at p)) (snd (location_post_at p))))
                (filter (\<lambda>ets. ets_is_enabled ets (location_post_event p)
                              \<and> has_callback (ets_env ets) (location_post_event p))
                   (thread_etss thread)))"
proof (intro conjI impI)
  assume same: "\<forall>p\<in>set posts. location_post_at p = at"
  have "deliveries env event (fst (location_posts agent posts thread))
          \<le> waiting env event at (thread_etss thread)"
    using location_posts_counts [OF same, of env event agent thread] by simp
  also have "\<dots> \<le> 1"
    using assms waiting_le_one [of "thread_etss thread" env event at]
    by (simp add: thread_envs_etss)
  finally show "deliveries env event (fst (location_posts agent posts thread)) \<le> 1" .
next
  assume h: "passes_guards thread p' \<and> passes_guards thread p
            \<and> location_post_at p' \<noteq> location_post_at p"
  define t1 where "t1 = snd (location_post_call agent thread p')"
  have moved: "list_all2 (\<lambda>a b. same_subscription a b \<and> current_location b = Some (location_post_at p'))
     (thread_etss thread) (thread_etss t1)"
    using h by (simp add: t1_def location_post_call_moves)
  have "\<forall>ets\<in>set (thread_etss t1). current_location ets = Some (location_post_at p')"
    using moved by (induction rule: list_all2_induct) simp_all
  with h have fresh: "\<forall>ets\<in>set (thread_etss t1). current_location ets \<noteq> Some (location_post_at p)"
    by simp
  have pass: "passes_guards t1 p"
    using h by (simp add: t1_def passes_guards_after)
  show "fst (location_post_call agent (snd (location_post_call agent thread p')) p) =
              map (\<lambda>ets. Callback (ets_env ets) (location_post_event p)
                           (Location_arguments (fst (location_post_at p)) (snd (location_post_at p))))
                (filter (\<lambda>ets. ets_is_enabled ets (location_post_event p)
                              \<and> has_callback (ets_env ets) (location_post_event p))
                   (thread_etss thread))"
    using location_post_call_fresh [OF pass fresh, of agent] same_subscription_calls [OF moved]
    by (simp add: t1_def)
qed

lemma example_envs_distinct: "distinct (thread_envs thread_AB)"
  by (simp add: thread_envs_def thread_AB_def state_AB_def get_jvmti_thread_state_def
      ets_of_def env_A_def env_B_def)

theorem location_gated_events_delivered_once_witness:
  "distinct (thread_envs thread_AB)
   \<and> location_post_at (Single_step method_m 105) = (7, 5)
   \<and> location_post_at (Raw_breakpoint method_m 105) = (7, 5)
   \<and> deliveries env_A JVMTI_EVENT_SINGLE_STEP
       (fst (location_posts quiet_agent
          [Single_step method_m 105, Raw_breakpoint method_m 105, Single_step method_m 105] thread_AB)) \<le> 1
   \<and> passes_guards thread_AB (Single_step method_m 106)
   \<and> passes_guards thread_AB (Single_step method_m 105)
   \<and> location_post_at (Single_step method_m 106) \<noteq> location_post_at (Single_step method_m 105)
   \<and> fst (location_post_call quiet_agent
            (snd (location_post_call quiet_agent thread_AB (Single_step method_m 106)))
            (Single_step method_m 105))
       = [Callback env_A JVMTI_EVENT_SINGLE_STEP (Location_arguments 7 5),
          Callback env_B JVMTI_EVENT_SINGLE_STEP (Location_arguments 7 5)]"
proof -
  have same: "\<forall>p\<in>set [Single_step method_m 105, Raw_breakpoint method_m 105, Single_step method_m 105].
        location_post_at p = (7, 5)"
    by (simp add: method_m_def)
  have guards: "passes_guards thread_AB (Single_step method_m 106)
      \<and> passes_guards thread_AB (Single_step method_m 105)
      \<and> location_post_at (Single_step method_m 106) \<noteq> location_post_at (Single_step method_m 105)"
    by (simp add: method_m_def thread_AB_def get_jvmti_thread_state_def)
  have etss: "thread_etss thread_AB = [ets_of env_A, ets_of env_B]"
    by (simp add: thread_etss_def thread_AB_def state_AB_def get_jvmti_thread_state_def)
  note inst = location_gated_events_delivered_once [OF example_envs_distinct,
      of "[Single_step method_m 105, Raw_breakpoint method_m 105, Single_step method_m 105]"
         "(7, 5)" env_A JVMTI_EVENT_SINGLE_STEP quiet_agent
         "Single_step method_m 106" "Single_step method_m 105"]
  from inst same have once: "deliveries env_A JVMTI_EVENT_SINGLE_STEP
       (fst (location_posts quiet_agent
          [Single_step method_m 105, Raw_breakpoint method_m 105, Single_step method_m 105] thread_AB)) \<le> 1"
    by blast
  from inst guards have "fst (location_post_call quiet_agent
            (snd (location_post_call quiet_agent thread_AB (Single_step method_m 106)))
            (Single_step method_m 105))
       = map (\<lambda>ets. Callback (ets_env ets) (location_post_event (Single_step method_m 105))
                           (Location_arguments (fst (location_post_at (Single_step method_m 105)))
                              (snd (location_post_at (Single_step method_m 105)))))
                (filter (\<lambda>ets. ets_is_enabled ets (location_post_event (Single_step method_m 105))
                              \<and> has_callback (ets_env ets) (location_post_event (Single_step method_m 105)))
                   (thread_etss thread_AB))"
    by blast
  then have rearm: "fst (location_post_call quiet_agent
            (snd (location_post_call quiet_agent thread_AB (Single_step method_m 106)))
            (Single_step method_m 105))
       = [Callback env_A JVMTI_EVENT_SINGLE_STEP (Location_arguments 7 5),
          Callback env_B JVMTI_EVENT_SINGLE_STEP (Location_arguments 7 5)]"
    by (simp add: etss ets_of_def env_A_def env_B_def method_m_def)
  have at: "location_post_at (Single_step method_m 105) = (7, 5)
      \<and> location_post_at (Raw_breakpoint method_m 105) = (7, 5)"
    by (simp add: method_m_def)
  from example_envs_distinct at once guards rearm show ?thesis by blast
qed

subsection \<open>The event mark restores the exception state\<close>

text \<open>
  C6. When the posting thread has a JVMTI state as the mark is constructed, then after the
  mark's destructor the exception-reporting state of the thread's JVMTI state is the one it
  had at construction, whatever the code between the two did and whichever way it left;
  the only other outcome is that this code itself removed the thread's state.
\<close>

theorem JvmtiEventMark_restores_exception_state:
  assumes "jvmti_thread_state thread = Some state"
  shows "case jvmti_thread_state (snd (with_JvmtiEventMark body thread)) of
           Some state' \<Rightarrow> exception_state state' = exception_state state
         | None \<Rightarrow> jvmti_thread_state (snd (body (snd (JvmtiEventMark_ctor thread)))) = None"
  using assms
  by (simp add: with_JvmtiEventMark_def JvmtiEventMark_ctor_def JvmtiEventMark_dtor_def
      update_state_frame case_prod_beta split: option.splits)

theorem JvmtiEventMark_restores_exception_state_witness:
  "jvmti_thread_state thread_AB = Some state_AB
   \<and> exception_state state_AB = ES_CLEARED
   \<and> map_option exception_state
       (jvmti_thread_state (snd (with_JvmtiEventMark
          (\<lambda>t. (False, update_state set_exception_detected t)) thread_AB))) = Some ES_CLEARED"
proof -
  have h: "jvmti_thread_state thread_AB = Some state_AB"
    by (simp add: thread_AB_def)
  have c: "exception_state state_AB = ES_CLEARED"
    by (simp add: state_AB_def new_JvmtiThreadState_def)
  have n: "jvmti_thread_state (snd (with_JvmtiEventMark
          (\<lambda>t. (False, update_state set_exception_detected t)) thread_AB)) \<noteq> None"
    by (simp add: with_JvmtiEventMark_def JvmtiEventMark_ctor_def JvmtiEventMark_dtor_def
        update_state_frame thread_AB_def)
  from JvmtiEventMark_restores_exception_state [OF h,
      of "\<lambda>t. (False, update_state set_exception_detected t)"] n c
  have "map_option exception_state
       (jvmti_thread_state (snd (with_JvmtiEventMark
          (\<lambda>t. (False, update_state set_exception_detected t)) thread_AB))) = Some ES_CLEARED"
    by (auto split: option.splits)
  with h c show ?thesis by blast
qed

subsection \<open>Exception throw is reported once\<close>







lemma thread_AB_state: "get_jvmti_thread_state thread_AB = Some state_AB"
  by (simp add: get_jvmti_thread_state_def thread_AB_def)


subsection \<open>The class-file-load hook calls the environments in two passes\<close>



lemma post_to_env_kind:
  "poster_load_kind (fst (snd (post_to_env agent new_class_data env caching_needed s))) =
     poster_load_kind (fst s)"
  by (cases s)
     (auto simp add: post_to_env_def Let_def case_prod_beta split: option.splits)





subsection \<open>Properties of every call a posting function makes\<close>

lemma calls_made_Inr: "calls_made (Inr p) = fst p"
  by (cases p) simp

lemma for_each_list_all:
  assumes "\<And>e s. list_all P (fst (body e s))"
  shows "list_all P (fst (for_each body es s))"
  by (induction es arbitrary: s) (simp_all add: case_prod_beta assms)



lemma post_to_env_calls:
  "fst (post_to_env agent new_class_data env caching_needed s) =
     (if has_callback env JVMTI_EVENT_CLASS_FILE_LOAD_HOOK
         \<and> \<not> (env_phase env = JVMTI_PHASE_PRIMORDIAL \<and> \<not> early_class_hook_env env)
      then [Callback env JVMTI_EVENT_CLASS_FILE_LOAD_HOOK (Class_file_arguments (curr_data (fst s)))]
      else [])"
  by (cases s)
     (auto simp add: post_to_env_def Let_def case_prod_beta deliver_calls split: option.splits)

lemma gated_post_past_primordial:
  "list_all past_primordial (calls_made (gated_post_call vm agent thread p))"
proof (cases p)
  case (Post_class_file_load_hook new_class_data data cache)
  then show ?thesis
    by (auto simp add: post_class_file_load_hook_def post_all_envs_def case_prod_beta
          post_to_env_calls past_primordial_def calls_made_Inr
        intro!: for_each_list_all)
next
  case (Post_compiled_method_unload mth cb)
  then show ?thesis
    by (auto simp add: post_compiled_method_unload_def deliver_calls past_primordial_def calls_made_Inr
        intro!: for_each_list_all)
next
  case (Post_compiled_method_load nm)
  then show ?thesis
    by (auto simp add: post_compiled_method_load_def post_compiled_method_load_env_def
          deliver_calls past_primordial_def calls_made_Inr case_prod_beta
        intro!: for_each_list_all)
next
  case (Post_class_load klass)
  then show ?thesis
    by (auto simp add: post_class_load_def deliver_calls past_primordial_def calls_made_Inr
        intro!: for_each_list_all split: option.splits)
next
  case (Post_class_prepare klass)
  then show ?thesis
    by (auto simp add: post_class_prepare_def deliver_calls past_primordial_def calls_made_Inr
        intro!: for_each_list_all split: option.splits)
next
  case (Post_class_unload_internal name)
  then show ?thesis
    by (auto simp add: post_class_unload_internal_def deliver_calls past_primordial_def calls_made_Inr case_prod_beta
        intro!: for_each_list_all)
next
  case (Post_thread_start thread_started)
  then show ?thesis
    by (auto simp add: post_thread_start_def post_vthread_start_def Let_def deliver_calls
          past_primordial_def calls_made_Inr
        intro!: for_each_list_all)
next
  case Post_thread_end
  then show ?thesis
    by (auto simp add: post_thread_end_def post_vthread_end_def post_to_thread_envs_def
          deliver_calls past_primordial_def calls_made_Inr
        intro!: for_each_list_all split: option.splits)
next
  case Post_vthread_start
  then show ?thesis
    by (auto simp add: post_vthread_start_def deliver_calls past_primordial_def calls_made_Inr
        intro!: for_each_list_all)
next
  case Post_vthread_end
  then show ?thesis
    by (auto simp add: post_vthread_end_def post_to_thread_envs_def deliver_calls past_primordial_def calls_made_Inr
        intro!: for_each_list_all split: option.splits)
next
  case Post_vthread_mount
  then show ?thesis
    by (auto simp add: post_vthread_mount_def post_to_thread_envs_def deliver_calls past_primordial_def calls_made_Inr
        intro!: for_each_list_all split: option.splits)
next
  case Post_vthread_unmount
  then show ?thesis
    by (auto simp add: post_vthread_unmount_def post_to_thread_envs_def deliver_calls past_primordial_def calls_made_Inr
        intro!: for_each_list_all split: option.splits)
qed

lemma gated_post_below_primordial:
  assumes "below_primordial vm"
  shows "calls_made (gated_post_call vm agent thread p) = []
       \<and> (\<forall>calls t. gated_post_call vm agent thread p = Inr (calls, t) \<longrightarrow> t = thread)"
  using assms
  by (cases p)
     (auto simp add: post_class_file_load_hook_def post_compiled_method_unload_def
        post_compiled_method_load_def post_class_load_def post_class_prepare_def
        post_class_unload_internal_def post_thread_start_def post_thread_end_def
        post_vthread_start_def post_vthread_end_def post_vthread_mount_def post_vthread_unmount_def)





lemma post_class_file_load_hook_calls_made:
  "calls_made (gated_post_call vm agent thread (Post_class_file_load_hook new_class_data data cache))
     = fst (post_class_file_load_hook vm agent new_class_data thread data cache)"
  by (simp add: case_prod_beta)



subsection \<open>Order of the callbacks against the order of registration\<close>





subsection \<open>The phase guards\<close>

text \<open>
  C3, as stated, fails: \<^verbatim>\<open>post_native_method_bind\<close> does invoke the callback of an
  environment that is still in the primordial phase and has neither early flag; it only
  passes it a null \<^verbatim>\<open>JNIEnv*\<close>.
\<close>

theorem native_method_bind_primordial_counterexample:
  "env_phase env_P = JVMTI_PHASE_PRIMORDIAL
   \<and> \<not> early_class_hook_env env_P \<and> \<not> early_vmstart_env env_P
   \<and> fst (post_native_method_bind vm_primordial quiet_agent thread_AB method_m)
       = [Callback env_P JVMTI_EVENT_NATIVE_METHOD_BIND (Native_method_arguments True 7)]"
  by (simp add: post_native_method_bind_def vm_primordial_def vm_live_def registered_eq
      case_prod_beta deliver_calls env_P_def method_m_def)
     (simp add: thread_AB_def)

text \<open>
  C3, amended. Every posting function that tests the process-wide phase (the class-file-load
  hook, compiled method load and unload, class load, prepare and unload, thread start and
  end, virtual thread start, end, mount and unmount) returns without invoking any agent
  callback, the thread unchanged, while that phase is below PRIMORDIAL; and in any phase
  none of them invokes a callback of an environment that is still in the primordial phase,
  except the class-file-load hook of an environment flagged for early class hooks. The
  posting functions without that test are not covered.
\<close>

theorem gated_posts_respect_phase:
  "(below_primordial vm \<longrightarrow>
      calls_made (gated_post_call vm agent thread p) = []
      \<and> (\<forall>calls t. gated_post_call vm agent thread p = Inr (calls, t) \<longrightarrow> t = thread))
   \<and> list_all past_primordial (calls_made (gated_post_call vm agent thread p))"
  using gated_post_below_primordial [of vm agent thread p]
    gated_post_past_primordial [of vm agent thread p]
  by blast

theorem gated_posts_respect_phase_witness:
  "below_primordial vm_onload
   \<and> gated_post_call vm_onload quiet_agent thread_AB (Post_class_load 3) = Inr ([], thread_AB)
   \<and> list_all past_primordial
       (calls_made (gated_post_call vm_live quiet_agent thread_AB (Post_class_load 3)))
   \<and> calls_made (gated_post_call vm_live quiet_agent thread_AB (Post_class_load 3))
       = [Callback env_A JVMTI_EVENT_CLASS_LOAD (Class_arguments 3),
          Callback env_B JVMTI_EVENT_CLASS_LOAD (Class_arguments 3)]"
proof -
  have b: "below_primordial vm_onload"
    by (simp add: below_primordial_def vm_onload_def vm_live_def)
  have r: "gated_post_call vm_onload quiet_agent thread_AB (Post_class_load 3) = Inr ([], thread_AB)"
    using gated_posts_respect_phase [of vm_onload quiet_agent thread_AB "Post_class_load 3"] b
    by (cases "post_class_load vm_onload quiet_agent thread_AB 3") simp
  have l: "list_all past_primordial
       (calls_made (gated_post_call vm_live quiet_agent thread_AB (Post_class_load 3)))"
    using gated_posts_respect_phase [of vm_live quiet_agent thread_AB "Post_class_load 3"]
    by blast
  have c: "calls_made (gated_post_call vm_live quiet_agent thread_AB (Post_class_load 3))
       = [Callback env_A JVMTI_EVENT_CLASS_LOAD (Class_arguments 3),
          Callback env_B JVMTI_EVENT_CLASS_LOAD (Class_arguments 3)]"
    by (simp add: calls_made_Inr post_class_load_def thread_AB_state below_primordial_def
        vm_live_def case_prod_beta deliver_calls state_AB_def ets_of_def env_A_def env_B_def)
       (simp add: thread_AB_def)
  from b r l c show ?thesis by blast
qed

subsection \<open>Deferred posting\<close>







subsection \<open>Collectors that an agent cannot reach\<close>

lemma collector_enabled_cong:
  "collectors t' a = collectors t a \<Longrightarrow> collector_enabled t' (Some a) = collector_enabled t (Some a)"
  by (simp add: collector_enabled_def)

lemma record_allocation_collectors:
  "collectors (record_allocation c obj t) a =
     (if a = c then
        (case collectors t c of
           None \<Rightarrow> None
         | Some col \<Rightarrow> Some (col\<lparr> allocated := Some (records_of (allocated col) @ [obj]) \<rparr>))
      else collectors t a)"
  by (simp add: record_allocation_def records_of_def split: option.splits)

lemma exec_agent_op_slot: "slot_of k (exec_agent_op op t) = slot_of k t"
proof -
  have blank: "map_option (exception_state_update (\<lambda>_. ES_CLEARED)) (jvmti_thread_state (exec_agent_op op t))
     = map_option (exception_state_update (\<lambda>_. ES_CLEARED)) (jvmti_thread_state t)"
    by (rule exec_agent_op_frame)
  show ?thesis
  proof (cases "jvmti_thread_state t")
    case None
    with blank show ?thesis by (simp add: slot_of_def)
  next
    case (Some s)
    with blank obtain s' where s': "jvmti_thread_state (exec_agent_op op t) = Some s'"
      and eq: "s'\<lparr> exception_state := ES_CLEARED \<rparr> = s\<lparr> exception_state := ES_CLEARED \<rparr>"
      by (cases "jvmti_thread_state (exec_agent_op op t)") auto
    from eq have "vm_object_alloc_event_collector s' = vm_object_alloc_event_collector s"
      "dynamic_code_event_collector s' = dynamic_code_event_collector s"
      "sampled_object_alloc_event_collector s' = sampled_object_alloc_event_collector s"
      by (metis JvmtiThreadState.select_convs JvmtiThreadState.surjective JvmtiThreadState.update_convs(1))+
    with Some s' show ?thesis by (simp add: slot_of_def split: collector_kind.splits)
  qed
qed

lemma untouched_cong:
  assumes "collectors t' a = collectors t a" and "\<And>k. slot_of k t' = slot_of k t"
  shows "untouched a t' = untouched a t"
  using assms by (simp add: untouched_def collector_enabled_def)

lemma exec_agent_op_untouched:
  assumes "untouched a t"
  shows "collectors (exec_agent_op op t) a = collectors t a"
proof (cases op)
  case (Allocate_in_VM obj)
  with assms show ?thesis
    by (auto simp add: record_vm_internal_object_allocation_def record_allocation_collectors
        untouched_def slot_of_def split: option.splits)
next
  case (Allocate_sampled obj)
  with assms show ?thesis
    by (auto simp add: record_sampled_internal_object_allocation_def record_allocation_collectors
        untouched_def slot_of_def split: option.splits)
qed (simp_all add: update_state_frame clear_detected_exception_def)

lemma agent_ops_slot: "slot_of k (fold exec_agent_op ops t) = slot_of k t"
  by (induction ops arbitrary: t) (simp_all add: exec_agent_op_slot)

lemma agent_ops_untouched:
  "untouched a t \<Longrightarrow> collectors (fold exec_agent_op ops t) a = collectors t a"
proof (induction ops arbitrary: t)
  case Nil
  show ?case by simp
next
  case (Cons op ops)
  have c: "collectors (exec_agent_op op t) a = collectors t a"
    using Cons.prems by (rule exec_agent_op_untouched)
  then have "untouched a (exec_agent_op op t)"
    using Cons.prems untouched_cong [of "exec_agent_op op t" a t] by (simp add: exec_agent_op_slot)
  then have "collectors (fold exec_agent_op ops (exec_agent_op op t)) a = collectors (exec_agent_op op t) a"
    by (rule Cons.IH)
  with c show ?case by simp
qed

lemma deliver_untouched:
  assumes "untouched a t"
  shows "collectors (snd (deliver agent b call t)) a = collectors t a"
proof -
  have "untouched a (snd (JvmtiEventMark_ctor t))"
    using assms untouched_cong [of "snd (JvmtiEventMark_ctor t)" a t]
    by (simp add: JvmtiEventMark_ctor_def slot_of_def)
  then have "collectors (fold exec_agent_op ops (snd (JvmtiEventMark_ctor t))) a = collectors t a" for ops
    using agent_ops_untouched [of a "snd (JvmtiEventMark_ctor t)" ops]
    by (simp add: JvmtiEventMark_ctor_def)
  then show ?thesis
    by (simp add: deliver_thread JvmtiEventMark_dtor_def update_state_frame JvmtiEventMark_ctor_def)
qed

lemma deliver_rest: "same_rest t (snd (deliver agent b call t))"
  by (simp add: same_rest_def deliver_state deliver_frame)

lemma same_rest_slot: "same_rest t t' \<Longrightarrow> slot_of k t' = slot_of k t"
  by (simp add: same_rest_def slot_of_def)

lemma settled_refl: "settled A t t"
  by (simp add: settled_def same_rest_def)

lemma settled_trans: "settled A t t1 \<Longrightarrow> settled A t1 t2 \<Longrightarrow> settled A t t2"
  by (simp add: settled_def same_rest_def)

lemma settled_untouched:
  "settled A t t' \<Longrightarrow> a \<in> A \<Longrightarrow> untouched a t' = untouched a t"
  by (rule untouched_cong) (simp_all add: settled_def same_rest_slot)

lemma deliver_settled:
  assumes "\<forall>a\<in>A. untouched a t"
  shows "settled A t (snd (deliver agent b call t))"
  using assms by (simp add: settled_def deliver_rest deliver_untouched)

lemma for_each_settled:
  assumes body: "\<And>e s. \<forall>a\<in>A. untouched a s \<Longrightarrow> settled A s (snd (body e s))"
      and "\<forall>a\<in>A. untouched a t"
  shows "settled A t (snd (for_each body es t))"
  using assms(2)
proof (induction es arbitrary: t)
  case Nil
  show ?case by (simp add: settled_refl)
next
  case (Cons e es)
  have s1: "settled A t (snd (body e t))" using Cons.prems by (rule body)
  then have "\<forall>a\<in>A. untouched a (snd (body e t))"
    using Cons.prems settled_untouched by blast
  then have "settled A (snd (body e t)) (snd (for_each body es (snd (body e t))))"
    by (rule Cons.IH)
  with s1 show ?case
    by (simp add: case_prod_beta settled_trans)
qed

lemma post_vm_object_alloc_settled:
  assumes "\<forall>a\<in>A. untouched a t"
  shows "settled A t (snd (post_vm_object_alloc vm agent t object))"
proof -
  have "settled A t (snd (for_each
              (\<lambda>env t.
                 if env_is_enabled env JVMTI_EVENT_VM_OBJECT_ALLOC then
                   deliver agent (has_callback env JVMTI_EVENT_VM_OBJECT_ALLOC)
                     (Callback env JVMTI_EVENT_VM_OBJECT_ALLOC (Object_arguments obj)) t
                 else ([], t))
              (env_list vm) t))" for obj
    by (rule for_each_settled [OF _ assms]) (simp add: deliver_settled settled_refl)
  then show ?thesis
    by (simp add: post_vm_object_alloc_def settled_refl split: option.splits)
qed

lemma post_sampled_object_alloc_settled:
  assumes "\<forall>a\<in>A. untouched a t"
  shows "settled A t (snd (post_sampled_object_alloc agent t object))"
proof -
  have "settled A t (snd (for_each
                   (\<lambda>ets t.
                      if ets_is_enabled ets JVMTI_EVENT_SAMPLED_OBJECT_ALLOC then
                        deliver agent (has_callback (ets_env ets) JVMTI_EVENT_SAMPLED_OBJECT_ALLOC)
                          (Callback (ets_env ets) JVMTI_EVENT_SAMPLED_OBJECT_ALLOC (Object_arguments obj)) t
                      else ([], t))
                   etss t))" for obj etss
    by (rule for_each_settled [OF _ assms]) (simp add: deliver_settled settled_refl)
  then show ?thesis
    by (auto simp add: post_sampled_object_alloc_def settled_refl split: option.splits)
qed

lemma post_dynamic_code_generated_internal_settled:
  assumes "\<forall>a\<in>A. untouched a t"
  shows "settled A t (snd (post_dynamic_code_generated_internal vm agent t name b e))"
  unfolding post_dynamic_code_generated_internal_def
  by (rule for_each_settled [OF _ assms]) (simp add: deliver_settled settled_refl)

subsection \<open>Flushing an allocation collector\<close>

lemma post_sampled_object_alloc_calls:
  "fst (post_sampled_object_alloc agent thread object) =
     (case get_jvmti_thread_state thread of
        None \<Rightarrow> []
      | Some state \<Rightarrow>
          (case object of
             None \<Rightarrow> []
           | Some obj \<Rightarrow>
               if should_hide_jvmti_events thread then []
               else map (\<lambda>ets. Callback (ets_env ets) JVMTI_EVENT_SAMPLED_OBJECT_ALLOC (Object_arguments obj))
                      (filter (\<lambda>ets. ets_is_enabled ets JVMTI_EVENT_SAMPLED_OBJECT_ALLOC
                                    \<and> has_callback (ets_env ets) JVMTI_EVENT_SAMPLED_OBJECT_ALLOC)
                         (env_thread_states state))))"
proof -
  have "fst (for_each
               (\<lambda>ets t.
                  if ets_is_enabled ets JVMTI_EVENT_SAMPLED_OBJECT_ALLOC then
                    deliver agent (has_callback (ets_env ets) JVMTI_EVENT_SAMPLED_OBJECT_ALLOC)
                      (Callback (ets_env ets) JVMTI_EVENT_SAMPLED_OBJECT_ALLOC (Object_arguments obj)) t
                  else ([], t))
               etss thread)
        = concat (map (\<lambda>ets. if ets_is_enabled ets JVMTI_EVENT_SAMPLED_OBJECT_ALLOC
                                 \<and> has_callback (ets_env ets) JVMTI_EVENT_SAMPLED_OBJECT_ALLOC
                              then [Callback (ets_env ets) JVMTI_EVENT_SAMPLED_OBJECT_ALLOC (Object_arguments obj)]
                              else []) etss)"
    for obj etss
    by (rule for_each_calls) (simp add: deliver_calls)
  note loop = this
  show ?thesis
  proof (cases "get_jvmti_thread_state thread")
    case None
    then show ?thesis by (simp add: post_sampled_object_alloc_def)
  next
    case (Some state)
    show ?thesis
    proof (cases object)
      case None
      with Some show ?thesis by (simp add: post_sampled_object_alloc_def)
    next
      case (Some obj)
      with \<open>get_jvmti_thread_state thread = Some state\<close> loop [of obj "env_thread_states state"]
      show ?thesis by (simp add: post_sampled_object_alloc_def concat_map_if)
    qed
  qed
qed

lemma call_post_callback_calls:
  assumes "same_rest t t'"
  shows "calls_made (call_post_callback f vm agent t' obj) = calls_made (call_post_callback f vm agent t obj)"
proof -
  from assms have "jvmti_thread_state t' = jvmti_thread_state t"
    and "should_hide_jvmti_events t' = should_hide_jvmti_events t"
    by (simp_all add: same_rest_def)
  then show ?thesis
    by (cases f; cases "should_hide_jvmti_events t")
       (simp_all add: call_post_callback_def calls_made_Inr post_vm_object_alloc_calls
          post_sampled_object_alloc_calls get_jvmti_thread_state_def split: option.splits)
qed

lemma posted_in_order_same_rest:
  "same_rest t t' \<Longrightarrow> posted_in_order f vm agent t' objs = posted_in_order f vm agent t objs"
  by (simp add: posted_in_order_def call_post_callback_calls)

lemma call_post_callback_settled:
  assumes "f \<noteq> post_callback_null" and "\<forall>a\<in>A. untouched a t"
  shows "\<exists>t1. call_post_callback f vm agent t obj
                = Inr (calls_made (call_post_callback f vm agent t obj), t1)
              \<and> settled A t t1"
proof (cases f)
  case post_callback_null
  with assms show ?thesis by simp
next
  case post_callback_vm_object_alloc
  then show ?thesis
    using post_vm_object_alloc_settled [OF assms(2), of vm agent "Some obj"]
    by (cases "post_vm_object_alloc vm agent t (Some obj)") (simp add: call_post_callback_def)
next
  case post_callback_sampled_object_alloc
  then show ?thesis
    using post_sampled_object_alloc_settled [OF assms(2), of agent "Some obj"]
    by (cases "post_sampled_object_alloc agent t (Some obj)") (simp add: call_post_callback_def)
qed

lemma disabled_untouched:
  "collectors t a = Some col \<Longrightarrow> \<not> enable col \<Longrightarrow> untouched a t"
  by (simp add: untouched_def collector_enabled_def)

lemma posted_in_order_Cons:
  "posted_in_order f vm agent t (x # xs) =
     calls_made (call_post_callback f vm agent t x) @ posted_in_order f vm agent t xs"
  by (simp add: posted_in_order_def)

lemma generate_loop_flushes:
  assumes "collectors t this = Some col" and "\<not> enable col" and "allocated col = Some xs"
      and "post_callback col \<noteq> post_callback_null"
      and "i \<le> length xs" and "length xs - i < fuel" and "\<forall>a\<in>A. untouched a t"
  shows "\<exists>t'. generate_loop fuel vm agent this i t
                = Some (Inr (posted_in_order (post_callback col) vm agent t (drop i xs), t'))
              \<and> settled (insert this A) t t'"
  using assms
proof (induction fuel arbitrary: i t)
  case 0
  then show ?case by simp
next
  case (Suc fuel)
  show ?case
  proof (cases "i < length xs")
    case False
    with Suc.prems have "i = length xs" by simp
    with Suc.prems show ?thesis
      by (simp add: posted_in_order_def settled_refl)
  next
    case True
    have unt: "\<forall>a\<in>insert this A. untouched a t"
      using Suc.prems disabled_untouched by auto
    from call_post_callback_settled [OF Suc.prems(4) unt, of vm agent "xs ! i"]
    obtain t1 where call0: "call_post_callback (post_callback col) vm agent t (xs ! i)
          = Inr (calls_made (call_post_callback (post_callback col) vm agent t (xs ! i)), t1)"
      and s1: "settled (insert this A) t t1"
      by blast
    define cs where "cs = calls_made (call_post_callback (post_callback col) vm agent t (xs ! i))"
    from call0 have call: "call_post_callback (post_callback col) vm agent t (xs ! i) = Inr (cs, t1)"
      by (simp add: cs_def)
    from s1 have c1: "collectors t1 this = Some col" and r1: "same_rest t t1"
      using Suc.prems(1) by (simp_all add: settled_def)
    have unt1: "\<forall>a\<in>A. untouched a t1"
      using s1 Suc.prems(7) settled_untouched [OF s1] by auto
    from True Suc.prems have "Suc i \<le> length xs" "length xs - Suc i < fuel" by simp_all
    from Suc.IH [OF c1 Suc.prems(2) Suc.prems(3) Suc.prems(4) this unt1]
    obtain t2 where loop: "generate_loop fuel vm agent this (Suc i) t1
          = Some (Inr (posted_in_order (post_callback col) vm agent t1 (drop (Suc i) xs), t2))"
      and s2: "settled (insert this A) t1 t2"
      by blast
    have "posted_in_order (post_callback col) vm agent t (drop i xs)
        = cs @ posted_in_order (post_callback col) vm agent t1 (drop (Suc i) xs)"
      using True by (simp add: Cons_nth_drop_Suc [symmetric] posted_in_order_Cons
          posted_in_order_same_rest [OF r1] cs_def)
    with call loop True Suc.prems(1) Suc.prems(3) have
      "generate_loop (Suc fuel) vm agent this i t
         = Some (Inr (posted_in_order (post_callback col) vm agent t (drop i xs), t2))"
      by simp
    with settled_trans [OF s1 s2] show ?thesis by blast
  qed
qed

lemma set_enabled_collectors:
  "collectors t this = Some col \<Longrightarrow>
   collectors (set_enabled this on t) = (collectors t)(this \<mapsto> col\<lparr> enable := on \<rparr>)"
  by (simp add: set_enabled_def update_collector_def)

lemma update_collector_rest: "same_rest t (update_collector this f t)"
  by (simp add: update_collector_def same_rest_def split: option.splits)

lemma set_enabled_rest: "same_rest t (set_enabled this on t)"
  by (simp add: set_enabled_def update_collector_rest)

lemma same_rest_trans: "same_rest t t1 \<Longrightarrow> same_rest t1 t2 \<Longrightarrow> same_rest t t2"
  by (simp add: same_rest_def)

lemma same_rest_sym: "same_rest t t1 \<Longrightarrow> same_rest t1 t"
  by (simp add: same_rest_def)

lemma generate_call_for_allocated_flushes:
  assumes col: "collectors t this = Some col" and xs: "allocated col = Some xs"
      and cb: "post_callback col \<noteq> post_callback_null"
      and fuel: "length xs < fuel" and A: "\<forall>a\<in>A. untouched a t" and notin: "this \<notin> A"
  shows "\<exists>t'. generate_call_for_allocated fuel vm agent this t
                = Some (Inr (posted_in_order (post_callback col) vm agent t xs, t'))
              \<and> same_rest t t'
              \<and> collectors t' this = Some (col\<lparr> enable := False, allocated := None \<rparr>)
              \<and> (\<forall>a\<in>A. collectors t' a = collectors t a)"
proof -
  define t0 where "t0 = set_enabled this False t"
  have r0: "same_rest t t0"
    by (simp add: t0_def set_enabled_rest)
  have c0: "collectors t0 = (collectors t)(this \<mapsto> col\<lparr> enable := False \<rparr>)"
    using col by (simp add: t0_def set_enabled_collectors)
  then have c0this: "collectors t0 this = Some (col\<lparr> enable := False \<rparr>)"
    by simp
  have A0: "\<forall>a\<in>A. untouched a t0"
  proof
    fix a assume a: "a \<in> A"
    with notin have "a \<noteq> this" by auto
    with c0 have "collectors t0 a = collectors t a" by simp
    then have "untouched a t0 = untouched a t"
      by (rule untouched_cong) (simp add: same_rest_slot [OF r0])
    with A a show "untouched a t0" by simp
  qed
  from generate_loop_flushes [of t0 this "col\<lparr> enable := False \<rparr>" xs 0 fuel A vm agent]
    c0this xs cb fuel A0
  obtain t1 where loop: "generate_loop fuel vm agent this 0 t0
        = Some (Inr (posted_in_order (post_callback col) vm agent t0 xs, t1))"
    and s1: "settled (insert this A) t0 t1"
    by auto
  define t' where "t' = update_collector this (\<lambda>c. c\<lparr> allocated := None \<rparr>) t1"
  from s1 c0this have c1this: "collectors t1 this = Some (col\<lparr> enable := False \<rparr>)"
    by (simp add: settled_def)
  then have ct': "collectors t' = (collectors t1)(this \<mapsto> col\<lparr> enable := False, allocated := None \<rparr>)"
    by (simp add: t'_def update_collector_def)
  have rest: "same_rest t t'"
    using r0 s1 update_collector_rest [of t1 this "\<lambda>c. c\<lparr> allocated := None \<rparr>"]
    unfolding t'_def settled_def by (blast intro: same_rest_trans)
  have others: "\<forall>a\<in>A. collectors t' a = collectors t a"
  proof
    fix a assume a: "a \<in> A"
    with notin have ne: "a \<noteq> this" by auto
    from s1 a have "collectors t1 a = collectors t0 a" by (simp add: settled_def)
    with ne c0 ct' show "collectors t' a = collectors t a" by simp
  qed
  have "generate_call_for_allocated fuel vm agent this t
          = Some (Inr (posted_in_order (post_callback col) vm agent t xs, t'))"
    using col xs loop
    by (simp add: generate_call_for_allocated_def t0_def [symmetric] t'_def
        posted_in_order_same_rest [OF r0])
  with rest ct' others show ?thesis by auto
qed

lemma disabled_ignores_allocations:
  assumes "collectors t this = Some col" and "\<not> enable col"
  shows "collectors (fold exec_agent_op ops t) this = Some col"
  using agent_ops_untouched [OF disabled_untouched [OF assms], of ops] assms(1) by simp

text \<open>
  C10. A collector that has records is flushed as follows, whatever the agent's callbacks
  do: the collector is disabled first, so that no sequence of allocations made from then on
  changes it; with fuel for one round per record the flush returns, having posted exactly
  the records present at its start, each once and in the order of the array; and it leaves
  the collector disabled and without an array.
\<close>

theorem flush_disables_collector_first:
  assumes "collectors thread this = Some col" and "allocated col = Some xs"
      and "post_callback col \<noteq> post_callback_null" and "length xs < fuel"
  shows "collectors (fold exec_agent_op ops (set_enabled this False thread)) this
           = Some (col\<lparr> enable := False \<rparr>)
         \<and> (\<exists>thread'. generate_call_for_allocated fuel vm agent this thread
                = Some (Inr (posted_in_order (post_callback col) vm agent thread xs, thread'))
              \<and> collectors thread' this = Some (col\<lparr> enable := False, allocated := None \<rparr>))"
proof -
  have "collectors (set_enabled this False thread) this = Some (col\<lparr> enable := False \<rparr>)"
    using assms(1) by (simp add: set_enabled_collectors)
  then have first: "collectors (fold exec_agent_op ops (set_enabled this False thread)) this
           = Some (col\<lparr> enable := False \<rparr>)"
    by (rule disabled_ignores_allocations) simp
  from generate_call_for_allocated_flushes [of thread this col xs fuel "{}" vm agent] assms
  have "\<exists>thread'. generate_call_for_allocated fuel vm agent this thread
                = Some (Inr (posted_in_order (post_callback col) vm agent thread xs, thread'))
              \<and> collectors thread' this = Some (col\<lparr> enable := False, allocated := None \<rparr>)"
    by auto
  with first show ?thesis by simp
qed

theorem flush_disables_collector_first_witness:
  "collectors thread_collecting 1 = Some collector_xy
   \<and> allocated collector_xy = Some [oop_x, oop_y]
   \<and> collectors (fold exec_agent_op (allocating_agent (Callback env_A JVMTI_EVENT_VM_OBJECT_ALLOC (Object_arguments oop_x))) (set_enabled 1 False thread_collecting)) 1
       = Some (collector_xy\<lparr> enable := False \<rparr>)
   \<and> (\<exists>thread'. generate_call_for_allocated 3 vm_live allocating_agent 1 thread_collecting
          = Some (Inr ([Callback env_A JVMTI_EVENT_VM_OBJECT_ALLOC (Object_arguments oop_x),
                        Callback env_B JVMTI_EVENT_VM_OBJECT_ALLOC (Object_arguments oop_x),
                        Callback env_A JVMTI_EVENT_VM_OBJECT_ALLOC (Object_arguments oop_y),
                        Callback env_B JVMTI_EVENT_VM_OBJECT_ALLOC (Object_arguments oop_y)], thread'))
        \<and> collectors thread' 1 = Some (collector_xy\<lparr> enable := False, allocated := None \<rparr>))"
proof -
  have c: "collectors thread_collecting 1 = Some collector_xy"
    by (simp add: thread_collecting_def)
  have xs: "allocated collector_xy = Some [oop_x, oop_y]"
    by (simp add: collector_xy_def)
  have cb: "post_callback collector_xy \<noteq> post_callback_null"
    by (simp add: collector_xy_def)
  have posted: "posted_in_order (post_callback collector_xy) vm_live allocating_agent thread_collecting
                  [oop_x, oop_y]
      = [Callback env_A JVMTI_EVENT_VM_OBJECT_ALLOC (Object_arguments oop_x),
         Callback env_B JVMTI_EVENT_VM_OBJECT_ALLOC (Object_arguments oop_x),
         Callback env_A JVMTI_EVENT_VM_OBJECT_ALLOC (Object_arguments oop_y),
         Callback env_B JVMTI_EVENT_VM_OBJECT_ALLOC (Object_arguments oop_y)]"
    by (simp add: posted_in_order_def call_post_callback_def calls_made_Inr
        post_vm_object_alloc_calls collector_xy_def thread_collecting_def thread_AB_def
        vm_live_def registered_eq env_A_def env_B_def)
  from flush_disables_collector_first [OF c xs cb, of 3 "allocating_agent (Callback env_A JVMTI_EVENT_VM_OBJECT_ALLOC (Object_arguments oop_x))" vm_live allocating_agent]
  show ?thesis
    using c xs by (simp add: posted)
qed

end
